theory Spec2Isabelle
  imports Main "HOL-Library.Sublist" "HOL-Library.AList"
begin

section \<open>Python strings\<close>

text \<open>
  A Python \<open>str\<close> is a sequence of Unicode code points; \<open>chr(int(h, 16))\<close> in
  \<open>normalize_path\<close> produces code points up to \<open>0xFFFF\<close>, so a string is modelled as
  a list of code points and \<open>ustr\<close> embeds an ASCII literal.
\<close>

type_synonym pystr = "nat list"

definition ustr :: "string \<Rightarrow> pystr" where
  "ustr s = map of_char s"

abbreviation slash :: nat where "slash \<equiv> 47"
abbreviation backslash :: nat where "backslash \<equiv> 92"
abbreviation percent :: nat where "percent \<equiv> 37"

definition lstrip :: "nat \<Rightarrow> pystr \<Rightarrow> pystr" where
  "lstrip c s = dropWhile (\<lambda>x. x = c) s"

definition rstrip :: "nat \<Rightarrow> pystr \<Rightarrow> pystr" where
  "rstrip c s = rev (dropWhile (\<lambda>x. x = c) (rev s))"

definition strip :: "nat \<Rightarrow> pystr \<Rightarrow> pystr" where
  "strip c s = rstrip c (lstrip c s)"

definition startswith :: "pystr \<Rightarrow> pystr \<Rightarrow> bool" where
  "startswith s p = (take (length p) s = p)"

definition replace_char :: "nat \<Rightarrow> nat \<Rightarrow> pystr \<Rightarrow> pystr" where
  "replace_char old new s = map (\<lambda>c. if c = old then new else c) s"

text \<open>\<open>s.split(c)\<close>: the pieces between the occurrences of \<open>c\<close>, the empty ones included.\<close>

fun split_on :: "nat \<Rightarrow> pystr \<Rightarrow> pystr list" where
  "split_on c [] = [[]]"
| "split_on c (x # xs) =
     (if x = c then [] # split_on c xs
      else (case split_on c xs of
              [] \<Rightarrow> [[x]]
            | p # ps \<Rightarrow> (x # p) # ps))"

text \<open>\<open>sep.join(parts)\<close>.\<close>

fun join :: "pystr \<Rightarrow> pystr list \<Rightarrow> pystr" where
  "join sep [] = []"
| "join sep [p] = p"
| "join sep (p # q # ps) = p @ sep @ join sep (q # ps)"

section \<open>Path normalisation of the HTTP layer (\<open>core/sandbox/api.py\<close>)\<close>

subsection \<open>\<open>_fix_path_duplications\<close>\<close>

text \<open>
  The \<open>while i < len(parts)\<close> loop of \<open>_fix_path_duplications\<close>, with its index \<open>i\<close> and
  its accumulator \<open>deduplicated_parts\<close>.
\<close>

function dedup_loop :: "pystr list \<Rightarrow> nat \<Rightarrow> pystr list \<Rightarrow> pystr list" where
  "dedup_loop parts i deduplicated_parts =
     (if i < length parts then
        (if i + 1 < length parts \<and> parts ! (i + 1) = parts ! i
         then dedup_loop parts (i + 2) (deduplicated_parts @ [parts ! i])
         else dedup_loop parts (i + 1) (deduplicated_parts @ [parts ! i]))
      else deduplicated_parts)"
  by pat_completeness auto
termination
  by (relation "measure (\<lambda>(ps, i, acc). length ps - i)") auto

declare dedup_loop.simps [simp del]

text \<open>The same loop by recursion on the list of parts that are still to be read.\<close>

fun dedup :: "'a list \<Rightarrow> 'a list" where
  "dedup [] = []"
| "dedup [x] = [x]"
| "dedup (x # y # rest) = (if y = x then x # dedup rest else x # dedup (y # rest))"

definition path_parts :: "pystr \<Rightarrow> pystr list" where
  "path_parts path =
     (let normalized_path = strip slash (replace_char backslash slash path)
      in filter (\<lambda>part. part \<noteq> []) (split_on slash normalized_path))"

definition fix_path_duplications :: "pystr \<Rightarrow> pystr" where
  "fix_path_duplications path =
     (let parts = path_parts path
      in if length parts < 2 then path
         else (let deduplicated_parts = dedup_loop parts 0 []
               in if deduplicated_parts = [] then [slash]
                  else slash # join [slash] deduplicated_parts))"

subsection \<open>\<open>normalize_path\<close>\<close>

text \<open>
  \<open>urllib.parse.unquote\<close> belongs to the standard library. Its first statement returns
  the string unchanged when it holds no \<open>%\<close>; what it does otherwise (percent-decoding
  followed by UTF-8 decoding) is the parameter \<open>pct\<close>.
\<close>

definition unquote :: "(pystr \<Rightarrow> pystr) \<Rightarrow> pystr \<Rightarrow> pystr" where
  "unquote pct s = (if percent \<notin> set s then s else pct s)"

definition is_hex :: "nat \<Rightarrow> bool" where
  "is_hex c = ((48 \<le> c \<and> c \<le> 57) \<or> (97 \<le> c \<and> c \<le> 102) \<or> (65 \<le> c \<and> c \<le> 70))"

definition hex_digit :: "nat \<Rightarrow> nat" where
  "hex_digit c = (if c \<le> 57 then c - 48 else if 97 \<le> c then c - 87 else c - 55)"

text \<open>\<open>int(hex_val, 16)\<close> on the four hexadecimal digits of a match.\<close>

definition int16 :: "pystr \<Rightarrow> nat" where
  "int16 hs = foldl (\<lambda>acc c. 16 * acc + hex_digit c) 0 hs"

text \<open>
  \<open>unicode_pattern.sub(replace_unicode, decoded_path)\<close> for the pattern
  \<open>\\u([0-9a-fA-F]{4})\<close>: one pass from left to right over non-overlapping matches, each
  replaced by \<open>chr\<close> of its value.
\<close>

fun unicode_sub :: "pystr \<Rightarrow> pystr" where
  "unicode_sub [] = []"
| "unicode_sub (c # cs) =
     (if c = backslash \<and> 5 \<le> length cs \<and> hd cs = 117 \<and> list_all is_hex (take 4 (tl cs))
      then int16 (take 4 (tl cs)) # unicode_sub (drop 5 cs)
      else c # unicode_sub cs)"

section \<open>Workspace configuration (\<open>core/sandbox/workspace_config.py\<close>)\<close>

text \<open>
  \<open>WORKSPACE_ROOT\<close> and \<open>PROVIDER\<close> are read from the environment when the object is
  built; \<open>PROVIDER\<close> is stored lower-cased, \<open>WORKSPACE_ROOT\<close> without trailing slashes.
\<close>

record WorkspaceConfig =
  WORKSPACE_ROOT :: pystr
  PROVIDER :: pystr

definition WorkspaceConfig_init :: "pystr \<Rightarrow> pystr \<Rightarrow> WorkspaceConfig" where
  "WorkspaceConfig_init env_root env_provider_lower =
     \<lparr>WORKSPACE_ROOT = rstrip slash env_root, PROVIDER = env_provider_lower\<rparr>"

definition get_project_workspace_path :: "WorkspaceConfig \<Rightarrow> 'a \<Rightarrow> pystr" where
  "get_project_workspace_path cfg project_id =
     (if PROVIDER cfg = ustr ''daytona'' then WORKSPACE_ROOT cfg else WORKSPACE_ROOT cfg)"

definition get_project_directory_path :: "WorkspaceConfig \<Rightarrow> pystr \<Rightarrow> pystr" where
  "get_project_directory_path cfg project_id =
     (if PROVIDER cfg = ustr ''daytona'' then WORKSPACE_ROOT cfg @ [slash] @ project_id
      else WORKSPACE_ROOT cfg)"

definition WorkspaceConfig_normalize_path :: "WorkspaceConfig \<Rightarrow> pystr \<Rightarrow> pystr \<Rightarrow> pystr" where
  "WorkspaceConfig_normalize_path cfg path0 project_id =
     (let path1 = lstrip slash path0;
          workspace_prefix = lstrip slash (WORKSPACE_ROOT cfg);
          path2 = (if startswith path1 workspace_prefix
                   then lstrip slash (drop (length workspace_prefix) path1)
                   else path1);
          project_prefix = project_id @ [slash]
      in if startswith path2 project_prefix then drop (length project_prefix) path2 else path2)"

definition resolve_absolute_path :: "WorkspaceConfig \<Rightarrow> pystr \<Rightarrow> pystr \<Rightarrow> pystr" where
  "resolve_absolute_path cfg relative_path project_id =
     (let normalized = WorkspaceConfig_normalize_path cfg relative_path project_id;
          project_dir = get_project_directory_path cfg project_id
      in if normalized \<noteq> [] then project_dir @ [slash] @ normalized else project_dir)"

text \<open>
  \<open>normalize_path(path, project_id)\<close> of \<open>api.py\<close>; \<open>project_id\<close> defaults to \<open>None\<close>, and
  the workspace normalisation runs only for a truthy (non-empty) one. None of the steps
  raises on a \<open>str\<close>, so the \<open>except\<close> branches are never taken.
\<close>

definition normalize_path ::
  "(pystr \<Rightarrow> pystr) \<Rightarrow> WorkspaceConfig \<Rightarrow> pystr \<Rightarrow> pystr option \<Rightarrow> pystr" where
  "normalize_path pct cfg path project_id =
     (let decoded_path = unquote pct path;
          decoded_path = unicode_sub decoded_path;
          decoded_path = fix_path_duplications decoded_path
      in case project_id of
           None \<Rightarrow> decoded_path
         | Some pid \<Rightarrow>
             if pid \<noteq> [] then WorkspaceConfig_normalize_path cfg decoded_path pid
             else decoded_path)"

section \<open>Paths and the file system\<close>

text \<open>
  \<open>pathlib.Path\<close> on POSIX: whether the path starts at the root, its components, and
  whether the root is written with exactly two slashes, which \<open>pathlib\<close> keeps (three or
  more are one). Parsing drops empty components and \<open>.\<close>, and keeps \<open>..\<close>.
\<close>

record Path =
  absolute :: bool
  comps :: "pystr list"
  two_slashes :: bool

abbreviation dot :: pystr where "dot \<equiv> [46]"
abbreviation dotdot :: pystr where "dotdot \<equiv> [46, 46]"

definition Path_of :: "pystr \<Rightarrow> Path" where
  "Path_of s =
     \<lparr>absolute = (s \<noteq> [] \<and> hd s = slash),
      comps = filter (\<lambda>c. c \<noteq> [] \<and> c \<noteq> dot) (split_on slash s),
      two_slashes = (length (takeWhile (\<lambda>c. c = slash) s) = 2)\<rparr>"

definition Path_str :: "Path \<Rightarrow> pystr" where
  "Path_str p =
     (if absolute p
      then (if two_slashes p then [slash, slash] else [slash]) @ join [slash] (comps p)
      else if comps p = [] then dot
      else join [slash] (comps p))"

definition Path_parent :: "Path \<Rightarrow> Path" where
  "Path_parent p = p\<lparr>comps := butlast (comps p)\<rparr>"

text \<open>\<open>a / b\<close> for a path \<open>a\<close> and a string \<open>b\<close>: an absolute \<open>b\<close> replaces \<open>a\<close>.\<close>

definition Path_join :: "Path \<Rightarrow> pystr \<Rightarrow> Path" where
  "Path_join a b =
     (if absolute (Path_of b) then Path_of b
      else a\<lparr>comps := comps a @ comps (Path_of b)\<rparr>)"

text \<open>
  The file system: a table from canonical locations (the names from the root down) to
  nodes, in the order in which a directory scan yields them. A regular file holds its
  bytes. A special node (a device such as \<open>/dev/null\<close>) accepts what is written and
  keeps nothing of it; it holds what reading it gives.
\<close>

type_synonym bytes = "nat list"
type_synonym loc = "pystr list"

datatype node = Dir | File bytes | Special bytes

text \<open>
  The errors of the system calls; \<open>EmbeddedNul\<close> stands for the \<open>ValueError\<close> that
  Python raises, before any call, for a path that holds a NUL character.
\<close>

datatype errno =
    ENOENT | ENOTDIR | EEXIST | EISDIR | EBADF | ELOOP
  | EACCES | ENAMETOOLONG | ENOSPC | EIO | EmbeddedNul

datatype syscall = SysStat | SysMkdir | SysWrite | SysRead | SysListdir

text \<open>
  Besides the table, the state holds what the table does not explain: \<open>fault\<close> gives the
  error with which the kernel refuses a call on a path for a reason of its own: missing
  permissions, a name that is too long, a symbolic link that leads nowhere (the entry is
  listed, \<open>stat\<close> on it reports \<open>ENOENT\<close>), a full disk, an I/O error.
\<close>

record os_state =
  files :: "(loc \<times> node) list"
  cwd :: loc
  dir_st_size :: nat
  fault :: "syscall \<Rightarrow> Path \<Rightarrow> errno option"

definition has_nul :: "Path \<Rightarrow> bool" where
  "has_nul p = list_ex (\<lambda>c. 0 \<in> set c) (comps p)"

definition refused :: "os_state \<Rightarrow> syscall \<Rightarrow> Path \<Rightarrow> errno option" where
  "refused os sc p = (if has_nul p then Some EmbeddedNul else fault os sc p)"

text \<open>
  Path resolution as the kernel does it: every directory on the way must exist and be a
  directory; the last component itself is not looked up.
\<close>

fun walk :: "(loc \<times> node) list \<Rightarrow> loc \<Rightarrow> pystr list \<Rightarrow> errno + loc" where
  "walk fs cur [] = Inr cur"
| "walk fs cur (s # ss) =
     (case map_of fs cur of
        None \<Rightarrow> Inl ENOENT
      | Some (File _) \<Rightarrow> Inl ENOTDIR
      | Some (Special _) \<Rightarrow> Inl ENOTDIR
      | Some Dir \<Rightarrow>
          walk fs (if s = dotdot then butlast cur else if s = dot then cur else cur @ [s]) ss)"

definition locate :: "os_state \<Rightarrow> Path \<Rightarrow> errno + loc" where
  "locate os p = walk (files os) (if absolute p then [] else cwd os) (comps p)"

definition os_stat :: "os_state \<Rightarrow> Path \<Rightarrow> errno + node" where
  "os_stat os p =
     (case refused os SysStat p of
        Some e \<Rightarrow> Inl e
      | None \<Rightarrow>
          (case locate os p of
             Inl e \<Rightarrow> Inl e
           | Inr l \<Rightarrow> (case map_of (files os) l of None \<Rightarrow> Inl ENOENT | Some n \<Rightarrow> Inr n)))"

text \<open>
  \<open>Path.exists\<close> and \<open>Path.is_dir\<close> (\<open>pathlib\<close> up to Python 3.12) answer \<open>False\<close> when
  \<open>stat\<close> fails with \<open>ENOENT\<close>, \<open>ENOTDIR\<close>, \<open>EBADF\<close> or \<open>ELOOP\<close> and on the
  \<open>ValueError\<close>; every other error of \<open>stat\<close> is raised again.
\<close>

definition ignored_error :: "errno \<Rightarrow> bool" where
  "ignored_error e = (e = ENOENT \<or> e = ENOTDIR \<or> e = EBADF \<or> e = ELOOP \<or> e = EmbeddedNul)"

definition Path_exists :: "os_state \<Rightarrow> Path \<Rightarrow> errno + bool" where
  "Path_exists os p =
     (case os_stat os p of
        Inl e \<Rightarrow> if ignored_error e then Inr False else Inl e
      | Inr _ \<Rightarrow> Inr True)"

definition Path_is_dir :: "os_state \<Rightarrow> Path \<Rightarrow> errno + bool" where
  "Path_is_dir os p =
     (case os_stat os p of
        Inl e \<Rightarrow> if ignored_error e then Inr False else Inl e
      | Inr Dir \<Rightarrow> Inr True
      | Inr _ \<Rightarrow> Inr False)"

definition os_mkdir :: "os_state \<Rightarrow> Path \<Rightarrow> errno + os_state" where
  "os_mkdir os p =
     (case refused os SysMkdir p of
        Some e \<Rightarrow> Inl e
      | None \<Rightarrow>
          (case locate os p of
             Inl e \<Rightarrow> Inl e
           | Inr l \<Rightarrow>
               (case map_of (files os) l of
                  Some _ \<Rightarrow> Inl EEXIST
                | None \<Rightarrow> Inr (os\<lparr>files := AList.update l Dir (files os)\<rparr>))))"

text \<open>
  The \<open>except OSError\<close> branch of \<open>Path.mkdir\<close> with \<open>exist_ok=True\<close>: the error is
  swallowed when the path is a directory, and \<open>is_dir\<close> may raise an error of its own.
\<close>

definition unless_is_dir :: "os_state \<Rightarrow> Path \<Rightarrow> errno \<Rightarrow> errno + os_state" where
  "unless_is_dir os p e =
     (case Path_is_dir os p of
        Inl e' \<Rightarrow> Inl e'
      | Inr True \<Rightarrow> Inr os
      | Inr False \<Rightarrow> Inl e)"

text \<open>
  \<open>Path.mkdir(parents=True, exist_ok=True)\<close>: on \<open>FileNotFoundError\<close> the parent is made
  first and the directory itself is tried again without \<open>parents\<close>; any other
  \<open>OSError\<close> is swallowed when the path is a directory by then.
\<close>

definition mkdir_exist_ok :: "os_state \<Rightarrow> Path \<Rightarrow> errno + os_state" where
  "mkdir_exist_ok os p =
     (case os_mkdir os p of
        Inr os' \<Rightarrow> Inr os'
      | Inl ENOENT \<Rightarrow> Inl ENOENT
      | Inl e \<Rightarrow> unless_is_dir os p e)"

function mkdir_parents :: "os_state \<Rightarrow> Path \<Rightarrow> errno + os_state" where
  "mkdir_parents os p =
     (case os_mkdir os p of
        Inr os' \<Rightarrow> Inr os'
      | Inl ENOENT \<Rightarrow>
          if comps p = [] then Inl ENOENT
          else (case mkdir_parents os (Path_parent p) of
                  Inl e \<Rightarrow> Inl e
                | Inr os1 \<Rightarrow> mkdir_exist_ok os1 p)
      | Inl e \<Rightarrow> unless_is_dir os p e)"
  by pat_completeness auto
termination
  by (relation "measure (\<lambda>(os, p). length (comps p))") (auto simp: Path_parent_def)

declare mkdir_parents.simps [simp del]

text \<open>
  \<open>Path.write_bytes\<close> (open for writing, create, truncate, write) and
  \<open>Path.read_bytes\<close>.
\<close>

definition write_bytes :: "os_state \<Rightarrow> Path \<Rightarrow> bytes \<Rightarrow> errno + os_state" where
  "write_bytes os p data =
     (case refused os SysWrite p of
        Some e \<Rightarrow> Inl e
      | None \<Rightarrow>
          (case locate os p of
             Inl e \<Rightarrow> Inl e
           | Inr l \<Rightarrow>
               (case map_of (files os) l of
                  Some Dir \<Rightarrow> Inl EISDIR
                | Some (Special _) \<Rightarrow> Inr os
                | _ \<Rightarrow> Inr (os\<lparr>files := AList.update l (File data) (files os)\<rparr>))))"

definition read_bytes :: "os_state \<Rightarrow> Path \<Rightarrow> errno + bytes" where
  "read_bytes os p =
     (case refused os SysRead p of
        Some e \<Rightarrow> Inl e
      | None \<Rightarrow>
          (case locate os p of
             Inl e \<Rightarrow> Inl e
           | Inr l \<Rightarrow>
               (case map_of (files os) l of
                  None \<Rightarrow> Inl ENOENT
                | Some Dir \<Rightarrow> Inl EISDIR
                | Some (File data) \<Rightarrow> Inr data
                | Some (Special given) \<Rightarrow> Inr given)))"

text \<open>\<open>Path.iterdir\<close>: one path per entry directly inside the directory.\<close>

definition children :: "(loc \<times> node) list \<Rightarrow> loc \<Rightarrow> loc list" where
  "children fs d = filter (\<lambda>l. l \<noteq> [] \<and> butlast l = d) (map fst fs)"

definition iterdir :: "os_state \<Rightarrow> Path \<Rightarrow> errno + Path list" where
  "iterdir os p =
     (case refused os SysListdir p of
        Some e \<Rightarrow> Inl e
      | None \<Rightarrow>
          (case locate os p of
             Inl e \<Rightarrow> Inl e
           | Inr d \<Rightarrow>
               (case map_of (files os) d of
                  None \<Rightarrow> Inl ENOENT
                | Some Dir \<Rightarrow>
                    Inr (map (\<lambda>l. p\<lparr>comps := comps p @ [last l]\<rparr>) (children (files os) d))
                | Some _ \<Rightarrow> Inl ENOTDIR)))"

text \<open>
  \<open>Path.resolve()\<close> (non-strict) where no symbolic link is on the way: the path is made
  absolute with a single leading slash and \<open>..\<close> is removed textually. A NUL character
  makes it raise.
\<close>

fun lex_norm :: "loc \<Rightarrow> pystr list \<Rightarrow> loc" where
  "lex_norm cur [] = cur"
| "lex_norm cur (s # ss) = lex_norm (if s = dotdot then butlast cur else cur @ [s]) ss"

definition Path_resolve :: "loc \<Rightarrow> Path \<Rightarrow> Path option" where
  "Path_resolve cwd0 p =
     (if list_ex (\<lambda>c. 0 \<in> set c) (comps p) then None
      else Some \<lparr>absolute = True,
                 comps = lex_norm (if absolute p then [] else cwd0) (comps p),
                 two_slashes = False\<rparr>)"

text \<open>\<open>WorkspaceConfig.is_path_safe\<close>; an exception anywhere gives \<open>False\<close>.\<close>

definition is_path_safe :: "loc \<Rightarrow> WorkspaceConfig \<Rightarrow> pystr \<Rightarrow> pystr \<Rightarrow> bool" where
  "is_path_safe cwd0 cfg path project_id =
     (let abs_path = resolve_absolute_path cfg path project_id;
          project_dir = get_project_directory_path cfg project_id
      in case Path_resolve cwd0 (Path_of abs_path) of
           None \<Rightarrow> False
         | Some abs_path_obj \<Rightarrow>
             (case Path_resolve cwd0 (Path_of project_dir) of
                None \<Rightarrow> False
              | Some project_dir_obj \<Rightarrow>
                  startswith (Path_str abs_path_obj) (Path_str project_dir_obj)))"

text \<open>
  What the specification asks of a safe path: the canonical path is the canonical
  project directory or lies beneath it, component by component.
\<close>

definition lies_within :: "Path \<Rightarrow> Path \<Rightarrow> bool" where
  "lies_within p d = (take (length (comps d)) (comps p) = comps d)"

section \<open>The local provider (\<open>core/sandbox/providers/local_process.py\<close>)\<close>

subsection \<open>The file-system adapter \<open>_LocalFS\<close>\<close>

text \<open>
  \<open>_FileInfo\<close>; \<open>mod_time\<close> is a floating-point time stamp taken from the operating system
  and is left out.
\<close>

record FileInfo =
  name :: pystr
  is_dir :: bool
  size :: nat

definition LocalFS_abs :: "Path \<Rightarrow> pystr \<Rightarrow> Path" where
  "LocalFS_abs root path =
     (let p = Path_of path in if absolute p then p else Path_join root path)"

text \<open>\<open>s.replace(old, new)\<close> for a non-empty \<open>old\<close>: every occurrence, left to right.\<close>

fun str_replace :: "pystr \<Rightarrow> pystr \<Rightarrow> pystr \<Rightarrow> pystr" where
  "str_replace old new [] = []"
| "str_replace old new (c # cs) =
     (if old \<noteq> [] \<and> take (length old) (c # cs) = old
      then new @ str_replace old new (drop (length old - 1) cs)
      else c # str_replace old new cs)"

definition st_size :: "os_state \<Rightarrow> node \<Rightarrow> nat" where
  "st_size os n =
     (case n of Dir \<Rightarrow> dir_st_size os | File data \<Rightarrow> length data | Special given \<Rightarrow> 0)"

definition file_info :: "os_state \<Rightarrow> Path \<Rightarrow> Path \<Rightarrow> errno + FileInfo" where
  "file_info os root entry =
     (case os_stat os entry of
        Inl e \<Rightarrow> Inl e
      | Inr st \<Rightarrow>
          (let rel = str_replace (rstrip slash (Path_str root) @ [slash]) [] (Path_str entry)
           in case Path_is_dir os entry of
                Inl e \<Rightarrow> Inl e
              | Inr d \<Rightarrow> Inr \<lparr>name = rel, is_dir = d, size = st_size os st\<rparr>))"

fun list_entries :: "os_state \<Rightarrow> Path \<Rightarrow> Path list \<Rightarrow> errno + FileInfo list" where
  "list_entries os root [] = Inr []"
| "list_entries os root (entry # rest) =
     (case file_info os root entry of
        Inl e \<Rightarrow> Inl e
      | Inr info \<Rightarrow>
          (case list_entries os root rest of
             Inl e \<Rightarrow> Inl e
           | Inr infos \<Rightarrow> Inr (info # infos)))"

definition list_files :: "os_state \<Rightarrow> Path \<Rightarrow> pystr \<Rightarrow> errno + FileInfo list" where
  "list_files os root base =
     (let basep = LocalFS_abs root base
      in case Path_exists os basep of
           Inl e \<Rightarrow> Inl e
         | Inr False \<Rightarrow> Inr []
         | Inr True \<Rightarrow>
             (case iterdir os basep of
                Inl e \<Rightarrow> Inl e
              | Inr entries \<Rightarrow> list_entries os root entries))"

definition download_file :: "os_state \<Rightarrow> Path \<Rightarrow> pystr \<Rightarrow> errno + bytes" where
  "download_file os root path = read_bytes os (LocalFS_abs root path)"

definition upload_file :: "os_state \<Rightarrow> Path \<Rightarrow> bytes \<Rightarrow> pystr \<Rightarrow> errno + os_state" where
  "upload_file os root data path =
     (let p = LocalFS_abs root path
      in case mkdir_parents os (Path_parent p) of
           Inl e \<Rightarrow> Inl e
         | Inr os1 \<Rightarrow> write_bytes os1 p data)"

subsection \<open>\<open>LocalProcessSandbox\<close>\<close>

text \<open>Values read from the metadata store (JSON), with Python's truthiness.\<close>

datatype jval = JNull | JBool bool | JNum int | JStr pystr

fun truthy :: "jval \<Rightarrow> bool" where
  "truthy JNull = False"
| "truthy (JBool b) = b"
| "truthy (JNum n) = (n \<noteq> 0)"
| "truthy (JStr s) = (s \<noteq> [])"

record LocalProcessSandbox =
  sb_id :: jval
  workspace_root :: pystr
  state :: pystr

datatype exn =
    OSError errno
  | ValueError
  | RuntimeError
  | UnicodeDecodeError
  | DatabaseError
  | ProviderError
  | ProcessLookupError
  | UnboundLocalError

definition sandbox_root :: "LocalProcessSandbox \<Rightarrow> Path" where
  "sandbox_root sb = Path_of (workspace_root sb)"

definition sandbox_venvs :: "LocalProcessSandbox \<Rightarrow> Path" where
  "sandbox_venvs sb = Path_join (sandbox_root sb) (ustr ''.venvs'')"

text \<open>
  The dataclass constructor with \<open>__post_init__\<close>: the state starts as \<open>RUNNING\<close>, and the
  workspace root and its \<open>.venvs\<close> directory are created.
\<close>

definition LocalProcessSandbox_init ::
  "os_state \<Rightarrow> jval \<Rightarrow> pystr \<Rightarrow> exn + (LocalProcessSandbox \<times> os_state)" where
  "LocalProcessSandbox_init os i root =
     (let sb = \<lparr>sb_id = i, workspace_root = root, state = ustr ''RUNNING''\<rparr>
      in case mkdir_parents os (sandbox_root sb) of
           Inl e \<Rightarrow> Inl (OSError e)
         | Inr os1 \<Rightarrow>
             (case mkdir_parents os1 (sandbox_venvs sb) of
                Inl e \<Rightarrow> Inl (OSError e)
              | Inr os2 \<Rightarrow> Inr (sb, os2)))"

text \<open>\<open>destroy\<close>, on the handle and the file system it lives in.\<close>

definition destroy :: "LocalProcessSandbox \<Rightarrow> os_state \<Rightarrow> bool \<times> LocalProcessSandbox \<times> os_state" where
  "destroy sb os = (True, sb\<lparr>state := ustr ''ARCHIVED''\<rparr>, os)"

subsection \<open>\<open>exec\<close> and \<open>run_python\<close>\<close>

text \<open>
  A spawned process, as the sandbox sees it: when it exits (in time units after the
  start, \<open>None\<close> if it never does), its exit code and what it wrote to its pipes.
\<close>

record proc =
  runtime :: "nat option"
  returncode :: int
  out :: bytes
  err :: bytes

text \<open>
  What lies outside the sandbox code: spawning, the decoding of the pipes' bytes, the
  virtual-environment builder, and the files the interpreter run needs. Spawned
  commands change the file system at will, so for these two operations it is part of
  this environment. \<open>kill_delay\<close> is the time that passes between the expiry of the
  timeout and the call of \<open>proc.kill()\<close> in the handler.
\<close>

record proc_env =
  create_subprocess_shell :: "pystr \<Rightarrow> pystr \<Rightarrow> exn + proc"
  create_subprocess_exec :: "pystr \<Rightarrow> pystr \<Rightarrow> pystr \<Rightarrow> exn + proc"
  decode_utf8 :: "bytes \<Rightarrow> pystr option"
  pyvenv_cfg_exists :: "pystr \<Rightarrow> bool"
  venv_create :: "pystr \<Rightarrow> exn option"
  wd_mkdir :: "pystr \<Rightarrow> exn option"
  write_temp_script :: "pystr \<Rightarrow> pystr \<Rightarrow> exn + pystr"
  dedent :: "pystr \<Rightarrow> pystr"
  kill_delay :: nat

datatype event =
    SpawnShell pystr pystr
  | SpawnExec pystr pystr pystr
  | Kill
  | VenvCreate pystr
  | MkdirWorkdir pystr
  | WriteScript pystr pystr

text \<open>The dictionaries returned by \<open>exec\<close> (three keys) and \<open>run_python\<close> (up to five).\<close>

record exec_result =
  code :: int
  stdout :: pystr
  stderr :: pystr
  script :: "pystr option"
  workdir :: "pystr option"

datatype command = CmdStr pystr | CmdList "pystr list"

text \<open>
  \<open>asyncio.wait_for(proc.communicate(), timeout)\<close>: the pipes' contents when the process
  exits within the budget, \<open>None\<close> for \<open>TimeoutError\<close>.
\<close>

definition wait_for_communicate :: "proc \<Rightarrow> int \<Rightarrow> (bytes \<times> bytes) option" where
  "wait_for_communicate p timeout =
     (case runtime p of
        None \<Rightarrow> None
      | Some d \<Rightarrow> if int d \<le> timeout then Some (out p, err p) else None)"

definition exceeds_timeout :: "proc \<Rightarrow> int \<Rightarrow> bool" where
  "exceeds_timeout p timeout = (case runtime p of None \<Rightarrow> True | Some d \<Rightarrow> timeout < int d)"

text \<open>
  \<open>proc.kill()\<close> is called unguarded in the handler of the \<open>TimeoutError\<close>; \<open>asyncio\<close>
  raises \<open>ProcessLookupError\<close> from it when the process has exited by then.
\<close>

definition exited_by :: "proc \<Rightarrow> int \<Rightarrow> bool" where
  "exited_by p t = (case runtime p of None \<Rightarrow> False | Some d \<Rightarrow> int d \<le> t)"

definition kill_time :: "proc_env \<Rightarrow> int \<Rightarrow> int" where
  "kill_time env timeout = max 0 timeout + int (kill_delay env)"

definition finish ::
  "proc_env \<Rightarrow> proc \<Rightarrow> int \<Rightarrow> pystr option \<Rightarrow> pystr option \<Rightarrow> event list
     \<Rightarrow> (exn + exec_result) \<times> event list" where
  "finish env p timeout scr wd evs =
     (case wait_for_communicate p timeout of
        None \<Rightarrow>
          if exited_by p (kill_time env timeout) then (Inl ProcessLookupError, evs)
          else (Inr \<lparr>code = 124, stdout = [], stderr = ustr ''timeout'', script = scr,
                     workdir = wd\<rparr>,
                evs @ [Kill])
      | Some (raw_out, raw_err) \<Rightarrow>
          (case decode_utf8 env raw_out of
             None \<Rightarrow> (Inl UnicodeDecodeError, evs)
           | Some so \<Rightarrow>
               (case decode_utf8 env raw_err of
                  None \<Rightarrow> (Inl UnicodeDecodeError, evs)
                | Some se \<Rightarrow>
                    (Inr \<lparr>code = returncode p, stdout = so, stderr = se,
                          script = scr, workdir = wd\<rparr>, evs))))"

text \<open>The command line (a list is joined with spaces) and \<open>cwd or self.workspace_root\<close>.\<close>

definition command_line :: "command \<Rightarrow> pystr" where
  "command_line cmd = (case cmd of CmdList cs \<Rightarrow> join (ustr '' '') cs | CmdStr c \<Rightarrow> c)"

definition exec_cwd :: "LocalProcessSandbox \<Rightarrow> pystr option \<Rightarrow> pystr" where
  "exec_cwd sb cwd0 =
     (case cwd0 of
        None \<Rightarrow> workspace_root sb
      | Some d \<Rightarrow> if d \<noteq> [] then d else workspace_root sb)"

definition exec ::
  "proc_env \<Rightarrow> LocalProcessSandbox \<Rightarrow> command \<Rightarrow> pystr option \<Rightarrow> int
     \<Rightarrow> (exn + exec_result) \<times> event list" where
  "exec env sb cmd cwd0 timeout =
     (let cmd1 = command_line cmd;
          dir = exec_cwd sb cwd0
      in case create_subprocess_shell env cmd1 dir of
           Inl e \<Rightarrow> (Inl e, [])
         | Inr p \<Rightarrow> finish env p timeout None None [SpawnShell cmd1 dir])"

definition venv_path :: "LocalProcessSandbox \<Rightarrow> pystr \<Rightarrow> Path" where
  "venv_path sb project_id = Path_join (sandbox_venvs sb) project_id"

definition ensure_venv ::
  "proc_env \<Rightarrow> LocalProcessSandbox \<Rightarrow> pystr \<Rightarrow> (exn + Path) \<times> event list" where
  "ensure_venv env sb project_id =
     (let v = venv_path sb project_id
      in if \<not> pyvenv_cfg_exists env (Path_str v)
         then (case venv_create env (Path_str v) of
                 Some e \<Rightarrow> (Inl e, [])
               | None \<Rightarrow> (Inr v, [VenvCreate (Path_str v)]))
         else (Inr v, []))"

definition venv_bin :: "Path \<Rightarrow> pystr \<Rightarrow> pystr" where
  "venv_bin venv_dir exe = Path_str (Path_join (Path_join venv_dir (ustr ''bin'')) exe)"

definition pip_prefix :: "pystr \<Rightarrow> pystr list" where
  "pip_prefix py =
     [py, ustr ''-m'', ustr ''pip'', ustr ''install'', ustr ''--disable-pip-version-check'',
      ustr ''--no-input'']"

text \<open>
  \<open>python_bin or self._bin(venv_dir, "python")\<close>, the string of
  \<open>Path(workdir or (self._root / project_id))\<close>, and the installer's command line.
\<close>

definition interpreter :: "Path \<Rightarrow> pystr option \<Rightarrow> pystr" where
  "interpreter venv_dir python_bin =
     (case python_bin of
        None \<Rightarrow> venv_bin venv_dir (ustr ''python'')
      | Some b \<Rightarrow> if b \<noteq> [] then b else venv_bin venv_dir (ustr ''python''))"

definition working_dir :: "LocalProcessSandbox \<Rightarrow> pystr \<Rightarrow> pystr option \<Rightarrow> pystr" where
  "working_dir sb project_id workdir0 =
     (case workdir0 of
        None \<Rightarrow> Path_str (Path_join (sandbox_root sb) project_id)
      | Some d \<Rightarrow>
          if d \<noteq> [] then Path_str (Path_of d)
          else Path_str (Path_join (sandbox_root sb) project_id))"

definition install_command :: "pystr \<Rightarrow> pystr list \<Rightarrow> command" where
  "install_command py reqs = CmdStr (join (ustr '' '') (pip_prefix py @ reqs))"

text \<open>The events that touch the user's script.\<close>

fun is_script_event :: "event \<Rightarrow> bool" where
  "is_script_event (WriteScript _ _) = True"
| "is_script_event (SpawnExec _ _ _) = True"
| "is_script_event _ = False"

definition run_script ::
  "proc_env \<Rightarrow> pystr \<Rightarrow> pystr \<Rightarrow> pystr \<Rightarrow> int \<Rightarrow> event list
     \<Rightarrow> (exn + exec_result) \<times> event list" where
  "run_script env py code0 wd timeout evs =
     (case write_temp_script env wd (dedent env code0) of
        Inl e \<Rightarrow> (Inl e, evs)
      | Inr scr \<Rightarrow>
          (let evs1 = evs @ [WriteScript wd scr]
           in case create_subprocess_exec env py scr wd of
                Inl e \<Rightarrow> (Inl e, evs1)
              | Inr p \<Rightarrow> finish env p timeout (Some scr) (Some wd) (evs1 @ [SpawnExec py scr wd])))"

definition run_python ::
  "proc_env \<Rightarrow> LocalProcessSandbox \<Rightarrow> pystr \<Rightarrow> pystr \<Rightarrow> pystr list option \<Rightarrow> pystr option
     \<Rightarrow> int \<Rightarrow> pystr option \<Rightarrow> (exn + exec_result) \<times> event list" where
  "run_python env sb code0 project_id requirements workdir0 timeout python_bin =
     (case ensure_venv env sb project_id of
        (Inl e, evs0) \<Rightarrow> (Inl e, evs0)
      | (Inr venv_dir, evs0) \<Rightarrow>
          (let py = interpreter venv_dir python_bin;
               wd = working_dir sb project_id workdir0
           in case wd_mkdir env wd of
                Some e \<Rightarrow> (Inl e, evs0)
              | None \<Rightarrow>
                  (let evs1 = evs0 @ [MkdirWorkdir wd]
                   in case requirements of
                        None \<Rightarrow> run_script env py code0 wd timeout evs1
                      | Some reqs \<Rightarrow>
                          if reqs = [] then run_script env py code0 wd timeout evs1
                          else (case exec env sb (install_command py reqs) (Some wd) timeout of
                                  (Inl e, evs2) \<Rightarrow> (Inl e, evs1 @ evs2)
                                | (Inr inst, evs2) \<Rightarrow>
                                    if code inst \<noteq> 0
                                    then (Inr \<lparr>code = code inst, stdout = stdout inst,
                                                stderr = stderr inst, script = None,
                                                workdir = None\<rparr>, evs1 @ evs2)
                                    else run_script env py code0 wd timeout (evs1 @ evs2)))))"

section \<open>The tool base class (\<open>core/sandbox/tool_base.py\<close>, \<open>core/sandbox/sandbox.py\<close>)\<close>

text \<open>
  A sandbox handle: the local dataclass, or the object of the remote platform, of which
  only the identifier is known here.
\<close>

datatype handle = LocalHandle LocalProcessSandbox | DaytonaHandle jval

text \<open>
  A Python dictionary keeps its keys in insertion order; assigning to a present key keeps
  its place, which is what \<open>AList.update\<close> does. \<open>d.get(k)\<close> gives \<open>None\<close> for a missing
  key.
\<close>

type_synonym dict = "(pystr \<times> jval) list"

definition dict_get :: "dict \<Rightarrow> pystr \<Rightarrow> jval" where
  "dict_get d k = (case map_of d k of None \<Rightarrow> JNull | Some v \<Rightarrow> v)"

datatype call =
    DbSelect pystr
  | DbUpdate pystr dict
  | GetOrStart jval
  | CreateSandbox pystr pystr

text \<open>
  The world of \<open>_ensure_sandbox\<close>: the file system, the \<open>sandbox\<close> column of the table
  \<open>projects\<close> by \<open>project_id\<close> (\<open>None\<close> for a null column), and the calls made so far to
  the metadata store and to the provider.
\<close>

record world =
  w_os :: os_state
  projects :: "(pystr \<times> dict option) list"
  calls :: "call list"

text \<open>What the metadata store and the remote platform answer.\<close>

record services =
  client_available :: bool
  select_raises :: bool
  update_raises :: bool
  update_stored :: bool
  uuid4 :: pystr
  daytona_create :: "pystr \<Rightarrow> pystr \<Rightarrow> exn + pystr"
  daytona_get_or_start :: "jval \<Rightarrow> exn + handle"

record tool =
  project_id :: pystr
  has_db :: bool
  workspace_path :: pystr
  project_directory :: pystr
  t_sandbox :: "handle option"
  t_sandbox_id :: jval
  t_sandbox_pass :: jval

definition SandboxToolsBase_init :: "WorkspaceConfig \<Rightarrow> pystr \<Rightarrow> bool \<Rightarrow> tool" where
  "SandboxToolsBase_init cfg pid db_present =
     \<lparr>project_id = pid, has_db = db_present,
      workspace_path = get_project_workspace_path cfg pid,
      project_directory = get_project_directory_path cfg pid,
      t_sandbox = None, t_sandbox_id = JNull, t_sandbox_pass = JNull\<rparr>"

definition db_select :: "services \<Rightarrow> world \<Rightarrow> pystr \<Rightarrow> (exn + dict option option) \<times> world" where
  "db_select svc w pid =
     (let w1 = w\<lparr>calls := calls w @ [DbSelect pid]\<rparr>
      in if select_raises svc then (Inl DatabaseError, w1)
         else (Inr (map_of (projects w) pid), w1))"

text \<open>
  \<open>update(...).eq('project_id', pid).execute()\<close>; the result tells whether a row was
  written, which the local branch does not look at.
\<close>

definition db_update :: "services \<Rightarrow> world \<Rightarrow> pystr \<Rightarrow> dict \<Rightarrow> (exn + bool) \<times> world" where
  "db_update svc w pid info =
     (let w1 = w\<lparr>calls := calls w @ [DbUpdate pid info]\<rparr>
      in if update_raises svc then (Inl DatabaseError, w1)
         else if update_stored svc \<and> map_of (projects w) pid \<noteq> None
         then (Inr True, w1\<lparr>projects := AList.update pid (Some info) (projects w)\<rparr>)
         else (Inr False, w1))"

text \<open>
  \<open>get_or_start_sandbox\<close> of \<open>sandbox.py\<close>, which is defined per provider: the remote
  platform's answer, or a fresh local handle on the workspace root.
\<close>

definition get_or_start_sandbox ::
  "pystr \<Rightarrow> WorkspaceConfig \<Rightarrow> services \<Rightarrow> world \<Rightarrow> jval \<Rightarrow> (exn + handle) \<times> world" where
  "get_or_start_sandbox provider cfg svc w sandbox_id =
     (let w1 = w\<lparr>calls := calls w @ [GetOrStart sandbox_id]\<rparr>
      in if provider = ustr ''daytona''
         then (daytona_get_or_start svc sandbox_id, w1)
         else if provider = ustr ''local_process''
         then (case LocalProcessSandbox_init (w_os w1) sandbox_id
                      (get_project_workspace_path cfg sandbox_id) of
                 Inl e \<Rightarrow> (Inl e, w1)
               | Inr (sb, os1) \<Rightarrow> (Inr (LocalHandle sb), w1\<lparr>w_os := os1\<rparr>))
         else (Inl RuntimeError, w1))"

text \<open>
  The reconciliation of the stored record in the local branch: the record to store and
  \<open>must_update\<close>.
\<close>

definition reconcile :: "pystr \<Rightarrow> pystr \<Rightarrow> dict \<Rightarrow> dict \<times> bool" where
  "reconcile provider pid sandbox_info =
     (let info1 = (if \<not> truthy (dict_get sandbox_info (ustr ''id''))
                   then AList.update (ustr ''id'') (JStr pid) sandbox_info
                   else sandbox_info);
          must_update1 = (\<not> truthy (dict_get sandbox_info (ustr ''id'')));
          info2 = (if dict_get info1 (ustr ''provider'') \<noteq> JStr provider
                   then AList.update (ustr ''provider'') (JStr provider) info1
                   else info1);
          must_update2 = (must_update1 \<or> dict_get info1 (ustr ''provider'') \<noteq> JStr provider)
      in (info2, must_update2))"

text \<open>
  \<open>self._sandbox_id = sandbox_info['id']\<close> and \<open>self._sandbox_pass = sandbox_info.get('pass')\<close>;
  the key \<open>id\<close> is present wherever this is reached.
\<close>

definition set_ids :: "tool \<Rightarrow> dict \<Rightarrow> tool" where
  "set_ids t info =
     t\<lparr>t_sandbox_id := dict_get info (ustr ''id''),
       t_sandbox_pass := dict_get info (ustr ''pass'')\<rparr>"

text \<open>The part of the local branch that talks to the metadata store.\<close>

definition local_sync ::
  "pystr \<Rightarrow> services \<Rightarrow> tool \<Rightarrow> world \<Rightarrow> (exn + unit) \<times> tool \<times> world" where
  "local_sync provider svc t w =
     (case db_select svc w (project_id t) of
        (Inl e, w1) \<Rightarrow> (Inl e, t, w1)
      | (Inr None, w1) \<Rightarrow> (Inl ValueError, t, w1)
      | (Inr (Some col), w1) \<Rightarrow>
          (let sandbox_info = (case col of None \<Rightarrow> [] | Some d \<Rightarrow> d);
               (info, must_update) = reconcile provider (project_id t) sandbox_info
           in if must_update
              then (case db_update svc w1 (project_id t) info of
                      (Inl e, w2) \<Rightarrow> (Inl e, t, w2)
                    | (Inr _, w2) \<Rightarrow> (Inr (), set_ids t info, w2))
              else (Inr (), set_ids t info, w1)))"

definition attach ::
  "pystr \<Rightarrow> WorkspaceConfig \<Rightarrow> services \<Rightarrow> tool \<Rightarrow> world \<Rightarrow> (exn + handle) \<times> tool \<times> world" where
  "attach provider cfg svc t w =
     (case get_or_start_sandbox provider cfg svc w (t_sandbox_id t) of
        (Inl e, w1) \<Rightarrow> (Inl e, t, w1)
      | (Inr h, w1) \<Rightarrow> (Inr h, t\<lparr>t_sandbox := Some h\<rparr>, w1))"

definition ensure_local ::
  "pystr \<Rightarrow> WorkspaceConfig \<Rightarrow> services \<Rightarrow> bool \<Rightarrow> tool \<Rightarrow> world
     \<Rightarrow> (exn + handle) \<times> tool \<times> world" where
  "ensure_local provider cfg svc client t w =
     (case (if client then local_sync provider svc t w
            else (Inr (), t\<lparr>t_sandbox_id := JStr (project_id t), t_sandbox_pass := JNull\<rparr>, w)) of
        (Inl e, t1, w1) \<Rightarrow> (Inl e, t1, w1)
      | (Inr _, t1, w1) \<Rightarrow>
          (case attach provider cfg svc t1 w1 of
             (Inl e, t2, w2) \<Rightarrow> (Inl e, t2, w2)
           | (Inr h, t2, w2) \<Rightarrow>
               (case mkdir_parents (w_os w2) (Path_of (workspace_path t2)) of
                  Inl e \<Rightarrow> (Inl (OSError e), t2, w2)
                | Inr os1 \<Rightarrow> (Inr h, t2, w2\<lparr>w_os := os1\<rparr>))))"

text \<open>
  The remote branch. The statement \<open>import pathlib, asyncio\<close> of the local branch makes
  \<open>asyncio\<close> a local name of the whole function body, so in this branch
  \<open>await asyncio.sleep(5)\<close>, which follows the creation of the sandbox, raises
  \<open>UnboundLocalError\<close>: the preview links, the storing of the record and the
  compensating delete that come after it are never reached.
\<close>

definition ensure_daytona ::
  "pystr \<Rightarrow> WorkspaceConfig \<Rightarrow> services \<Rightarrow> bool \<Rightarrow> tool \<Rightarrow> world
     \<Rightarrow> (exn + handle) \<times> tool \<times> world" where
  "ensure_daytona provider cfg svc client t w =
     (if \<not> client then (Inl RuntimeError, t, w)
      else (case db_select svc w (project_id t) of
              (Inl e, w1) \<Rightarrow> (Inl e, t, w1)
            | (Inr None, w1) \<Rightarrow> (Inl ValueError, t, w1)
            | (Inr (Some col), w1) \<Rightarrow>
                (let sandbox_info = (case col of None \<Rightarrow> [] | Some d \<Rightarrow> d)
                 in if \<not> truthy (dict_get sandbox_info (ustr ''id''))
                    then (let sandbox_pass = uuid4 svc;
                              w2 = w1\<lparr>calls := calls w1 @ [CreateSandbox sandbox_pass (project_id t)]\<rparr>
                          in case daytona_create svc sandbox_pass (project_id t) of
                               Inl e \<Rightarrow> (Inl e, t, w2)
                             | Inr sandbox_id \<Rightarrow> (Inl UnboundLocalError, t, w2))
                    else attach provider cfg svc (set_ids t sandbox_info) w1)))"

text \<open>\<open>SandboxToolsBase._ensure_sandbox\<close>, for the module constant \<open>PROVIDER\<close>.\<close>

definition ensure_sandbox ::
  "pystr \<Rightarrow> WorkspaceConfig \<Rightarrow> services \<Rightarrow> tool \<Rightarrow> world \<Rightarrow> (exn + handle) \<times> tool \<times> world" where
  "ensure_sandbox provider cfg svc t w =
     (case t_sandbox t of
        Some h \<Rightarrow> (Inr h, t, w)
      | None \<Rightarrow>
          (let client = (has_db t \<and> client_available svc)
           in if provider = ustr ''local_process'' \<or> provider = ustr ''local_docker''
              then ensure_local provider cfg svc client t w
              else ensure_daytona provider cfg svc client t w))"

section \<open>Example configurations\<close>

definition demo_sb :: LocalProcessSandbox where
  "demo_sb = \<lparr>sb_id = JStr (ustr ''p1''), workspace_root = ustr ''/workspace'',
               state = ustr ''RUNNING''\<rparr>"

text \<open>A process that exits after \<open>d\<close> time units with code \<open>rc\<close>, and a world that spawns it.\<close>

definition demo_proc :: "nat \<Rightarrow> int \<Rightarrow> proc" where
  "demo_proc d rc = \<lparr>runtime = Some d, returncode = rc, out = [], err = ustr ''no such package''\<rparr>"

definition demo_env :: "nat \<Rightarrow> int \<Rightarrow> proc_env" where
  "demo_env d rc =
     \<lparr>create_subprocess_shell = (\<lambda>c dir. Inr (demo_proc d rc)),
      create_subprocess_exec = (\<lambda>py scr dir. Inr (demo_proc d rc)),
      decode_utf8 = Some,
      pyvenv_cfg_exists = (\<lambda>v. True),
      venv_create = (\<lambda>v. None),
      wd_mkdir = (\<lambda>dir. None),
      write_temp_script = (\<lambda>dir c. Inr (dir @ ustr ''/tmpscript.py'')),
      dedent = (\<lambda>c. c),
      kill_delay = 0\<rparr>"

text \<open>
  A run in which the handler of the timeout reaches \<open>proc.kill()\<close> one time unit after
  the timeout has expired.
\<close>

definition demo_env_late_kill :: proc_env where
  "demo_env_late_kill = (demo_env 1 0)\<lparr>kill_delay := 1\<rparr>"

definition demo_inst :: exec_result where
  "demo_inst = \<lparr>code = 1, stdout = [], stderr = ustr ''no such package'', script = None,
                 workdir = None\<rparr>"

text \<open>
  The two deployments: the local provider and the remote one, both rooted at
  \<open>/workspace\<close>, and a small file system with the device \<open>/dev/null\<close>.
\<close>

definition demo_cfg_local :: WorkspaceConfig where
  "demo_cfg_local = WorkspaceConfig_init (ustr ''/workspace/'') (ustr ''local_process'')"

definition demo_cfg_daytona :: WorkspaceConfig where
  "demo_cfg_daytona = WorkspaceConfig_init (ustr ''/workspace'') (ustr ''daytona'')"

definition demo_os :: os_state where
  "demo_os =
     \<lparr>files = [([], Dir),
               ([ustr ''workspace''], Dir),
               ([ustr ''workspace'', ustr ''docs''], Dir),
               ([ustr ''workspace'', ustr ''docs'', ustr ''a.txt''], File (ustr ''hi'')),
               ([ustr ''workspace'', ustr ''notes.txt''], File (ustr ''todo'')),
               ([ustr ''dev''], Dir),
               ([ustr ''dev'', ustr ''null''], Special [])],
      cwd = [], dir_st_size = 4096, fault = (\<lambda>sc p. None)\<rparr>"

definition demo_root :: Path where
  "demo_root = Path_of (ustr ''/workspace'')"


text \<open>
  A metadata store that answers, holding for project \<open>p1\<close> a record written while the
  remote provider was active.
\<close>

definition demo_services :: services where
  "demo_services =
     \<lparr>client_available = True, select_raises = False, update_raises = False,
      update_stored = True, uuid4 = ustr ''0000'',
      daytona_create = (\<lambda>pw pid. Inl ProviderError),
      daytona_get_or_start = (\<lambda>i. Inr (DaytonaHandle i))\<rparr>"

definition demo_record :: dict where
  "demo_record =
     [(ustr ''id'', JStr (ustr ''sb-1'')), (ustr ''provider'', JStr (ustr ''daytona''))]"

definition demo_world :: world where
  "demo_world = \<lparr>w_os = demo_os, projects = [(ustr ''p1'', Some demo_record)], calls = []\<rparr>"

definition demo_tool :: tool where
  "demo_tool = SandboxToolsBase_init demo_cfg_local (ustr ''p1'') True"

section \<open>Auxiliary notions for the statements\<close>








text \<open>
  The locations below \<open>r\<close> on the way down the names \<open>ds\<close>, the last one included, from
  the top; and the table after a directory has been made at each of them that was free.
\<close>

definition ancestors :: "loc \<Rightarrow> pystr list \<Rightarrow> loc list" where
  "ancestors r ds = map (\<lambda>k. r @ take k ds) [1..<Suc (length ds)]"

definition make_dirs :: "(loc \<times> node) list \<Rightarrow> loc list \<Rightarrow> (loc \<times> node) list" where
  "make_dirs fs ls =
     foldl (\<lambda>tab l. case map_of tab l of None \<Rightarrow> AList.update l Dir tab | Some n \<Rightarrow> tab) fs ls"


text \<open>
  The workspace normalisation leaves \<open>q\<close> as it is, when it runs at all (that is, for a
  non-empty project identifier).
\<close>

definition workspace_stable :: "WorkspaceConfig \<Rightarrow> pystr option \<Rightarrow> pystr \<Rightarrow> bool" where
  "workspace_stable cfg pid0 q =
     (case pid0 of
        None \<Rightarrow> True
      | Some pid \<Rightarrow> if pid \<noteq> [] then WorkspaceConfig_normalize_path cfg q pid = q else True)"

section \<open>Properties\<close>

subsection \<open>The local sandbox: \<open>destroy\<close>, \<open>exec\<close>, \<open>run_python\<close>\<close>

text \<open>
  C9. \<open>destroy()\<close> returns \<open>True\<close> and sets the handle's state to \<open>ARCHIVED\<close>; the
  identifier and the workspace root of the handle and the whole file system are as before.
\<close>

theorem destroy_marks_archived_only:
  "destroy sb os = (True, sb\<lparr>state := ustr ''ARCHIVED''\<rparr>, os)
   \<and> sb_id (fst (snd (destroy sb os))) = sb_id sb
   \<and> workspace_root (fst (snd (destroy sb os))) = workspace_root sb
   \<and> snd (snd (destroy sb os)) = os"
  by (simp add: destroy_def)

lemma still_running_times_out:
  "\<not> exited_by p (kill_time env timeout) \<Longrightarrow> wait_for_communicate p timeout = None"
  by (auto simp: exited_by_def kill_time_def wait_for_communicate_def split: option.splits)

lemma exec_timeout_returns_result:
  assumes "create_subprocess_shell env (command_line cmd) (exec_cwd sb cwd0) = Inr p"
    and "\<not> exited_by p (kill_time env timeout)"
  shows "exec env sb cmd cwd0 timeout =
           (Inr \<lparr>code = 124, stdout = [], stderr = ustr ''timeout'', script = None, workdir = None\<rparr>,
            [SpawnShell (command_line cmd) (exec_cwd sb cwd0), Kill])"
  using assms by (simp add: exec_def finish_def still_running_times_out)

lemma exec_timeout_returns_result_example:
  "exec (demo_env 5 0) demo_sb (CmdStr (ustr ''sleep 5'')) None 1 =
           (Inr \<lparr>code = 124, stdout = [], stderr = ustr ''timeout'', script = None, workdir = None\<rparr>,
            [SpawnShell (ustr ''sleep 5'') (ustr ''/workspace''), Kill])"
  by code_simp

text \<open>
  C4. The shell that runs \<open>true\<close> exits one time unit after its start. With the timeout
  0 its run exceeds the budget and the wait ends with \<open>TimeoutError\<close>; when the handler
  reaches \<open>proc.kill()\<close> the process has exited, the call raises \<open>ProcessLookupError\<close>, and
  \<open>exec\<close> ends with that exception instead of the result with code 124.
\<close>

theorem exec_timeout_kill_raises:
  "exceeds_timeout (demo_proc 1 0) 0
   \<and> exec demo_env_late_kill demo_sb (CmdStr (ustr ''true'')) None 0 =
       (Inl ProcessLookupError, [SpawnShell (ustr ''true'') (ustr ''/workspace'')])"
  by code_simp

lemma exec_events_no_script: "filter is_script_event (snd (exec env sb cmd cwd0 timeout)) = []"
  by (auto simp: exec_def finish_def Let_def split: sum.splits option.splits prod.splits if_splits)

lemma ensure_venv_events_no_script:
  "filter is_script_event (snd (ensure_venv env sb pid)) = []"
  by (auto simp: ensure_venv_def Let_def split: option.splits)

text \<open>
  C7. With a non-empty list of requirements, when the virtual environment and the working
  directory are in place and the installer's run ends with a code other than 0 (124 for a
  timeout included), \<open>run_python\<close> returns the installer's code, \<open>stdout\<close> and \<open>stderr\<close>,
  and no event writes or starts the user's script.
\<close>

theorem run_python_install_failure_short_circuits:
  assumes "reqs \<noteq> []"
    and "fst (ensure_venv env sb pid) = Inr venv_dir"
    and "wd_mkdir env (working_dir sb pid workdir0) = None"
    and "fst (exec env sb (install_command (interpreter venv_dir python_bin) reqs)
               (Some (working_dir sb pid workdir0)) timeout) = Inr inst"
    and "code inst \<noteq> 0"
  shows "fst (run_python env sb code0 pid (Some reqs) workdir0 timeout python_bin) =
           Inr \<lparr>code = code inst, stdout = stdout inst, stderr = stderr inst,
                script = None, workdir = None\<rparr>
         \<and> filter is_script_event
             (snd (run_python env sb code0 pid (Some reqs) workdir0 timeout python_bin)) = []"
proof -
  obtain evs0 where v: "ensure_venv env sb pid = (Inr venv_dir, evs0)"
    using assms(2) by (cases "ensure_venv env sb pid") auto
  obtain evs2 where e: "exec env sb (install_command (interpreter venv_dir python_bin) reqs)
               (Some (working_dir sb pid workdir0)) timeout = (Inr inst, evs2)"
    using assms(4) by (cases "exec env sb (install_command (interpreter venv_dir python_bin) reqs)
               (Some (working_dir sb pid workdir0)) timeout") auto
  have n0: "filter is_script_event evs0 = []"
    using ensure_venv_events_no_script [of env sb pid] v by simp
  have n2: "filter is_script_event evs2 = []"
    using exec_events_no_script [of env sb "install_command (interpreter venv_dir python_bin) reqs"
        "Some (working_dir sb pid workdir0)" timeout] e by simp
  have r: "run_python env sb code0 pid (Some reqs) workdir0 timeout python_bin =
          (Inr \<lparr>code = code inst, stdout = stdout inst, stderr = stderr inst,
                script = None, workdir = None\<rparr>,
           (evs0 @ [MkdirWorkdir (working_dir sb pid workdir0)]) @ evs2)"
    using assms(1,3,5) v e by (simp add: run_python_def Let_def)
  show ?thesis using r n0 n2 by simp
qed

theorem run_python_install_failure_short_circuits_witness:
  "[ustr ''nosuchpkg''] \<noteq> []
   \<and> fst (ensure_venv (demo_env 1 1) demo_sb (ustr ''p1'')) = Inr (venv_path demo_sb (ustr ''p1''))
   \<and> wd_mkdir (demo_env 1 1) (working_dir demo_sb (ustr ''p1'') None) = None
   \<and> fst (exec (demo_env 1 1) demo_sb
            (install_command (interpreter (venv_path demo_sb (ustr ''p1'')) None) [ustr ''nosuchpkg''])
            (Some (working_dir demo_sb (ustr ''p1'') None)) 900) = Inr demo_inst
   \<and> code demo_inst \<noteq> 0
   \<and> fst (run_python (demo_env 1 1) demo_sb (ustr ''print(1)'') (ustr ''p1'')
            (Some [ustr ''nosuchpkg'']) None 900 None) = Inr demo_inst
   \<and> filter is_script_event
        (snd (run_python (demo_env 1 1) demo_sb (ustr ''print(1)'') (ustr ''p1'')
               (Some [ustr ''nosuchpkg'']) None 900 None)) = []"
proof -
  have a: "[ustr ''nosuchpkg''] \<noteq> []" by simp
  have b: "fst (ensure_venv (demo_env 1 1) demo_sb (ustr ''p1'')) = Inr (venv_path demo_sb (ustr ''p1''))"
    by (simp add: ensure_venv_def demo_env_def)
  have c: "wd_mkdir (demo_env 1 1) (working_dir demo_sb (ustr ''p1'') None) = None"
    by (simp add: demo_env_def)
  have d: "fst (exec (demo_env 1 1) demo_sb
            (install_command (interpreter (venv_path demo_sb (ustr ''p1'')) None) [ustr ''nosuchpkg''])
            (Some (working_dir demo_sb (ustr ''p1'') None)) 900) = Inr demo_inst"
    by (simp add: exec_def finish_def wait_for_communicate_def demo_env_def demo_proc_def demo_inst_def)
  have e: "code demo_inst \<noteq> 0" by (simp add: demo_inst_def)
  have f: "\<lparr>code = code demo_inst, stdout = stdout demo_inst, stderr = stderr demo_inst,
            script = None, workdir = None\<rparr> = demo_inst"
    by (simp add: demo_inst_def)
  show ?thesis
    using run_python_install_failure_short_circuits [OF a b c d e, of "ustr ''print(1)''"] a b c d e f
    by simp
qed

subsection \<open>\<open>_ensure_sandbox\<close>\<close>

lemma attach_success:
  "attach provider cfg svc t w = (Inr h, t', w') \<Longrightarrow> t_sandbox t' = Some h"
  by (auto simp: attach_def split: prod.splits sum.splits)

lemma ensure_local_success:
  assumes "ensure_local provider cfg svc client t w = (Inr h, t', w')"
  shows "t_sandbox t' = Some h"
proof -
  let ?pre = "if client then local_sync provider svc t w
            else (Inr (), t\<lparr>t_sandbox_id := JStr (project_id t), t_sandbox_pass := JNull\<rparr>, w)"
  obtain r1 t1 w1 where pre: "?pre = (r1, t1, w1)" by (cases ?pre) auto
  show ?thesis
  proof (cases r1)
    case (Inl e)
    with assms pre show ?thesis by (simp add: ensure_local_def)
  next
    case (Inr u)
    obtain r2 t2 w2 where att: "attach provider cfg svc t1 w1 = (r2, t2, w2)"
      by (cases "attach provider cfg svc t1 w1") auto
    show ?thesis
    proof (cases r2)
      case (Inl e)
      with assms pre Inr att show ?thesis by (simp add: ensure_local_def)
    next
      case (Inr h2)
      have s: "t_sandbox t2 = Some h2" using attach_success att Inr by blast
      from assms pre \<open>r1 = Inr u\<close> att Inr s show ?thesis
        by (auto simp: ensure_local_def split: sum.splits)
    qed
  qed
qed

lemma ensure_daytona_success:
  assumes "ensure_daytona provider cfg svc client t w = (Inr h, t', w')"
  shows "t_sandbox t' = Some h"
proof -
  from assms have c: client by (auto simp: ensure_daytona_def split: if_splits)
  obtain r1 w1 where sel: "db_select svc w (project_id t) = (r1, w1)"
    by (cases "db_select svc w (project_id t)") auto
  from assms c sel obtain col where r1: "r1 = Inr (Some col)"
    by (cases r1; cases "projl r1"; cases "projr r1") (auto simp: ensure_daytona_def split: sum.splits option.splits)
  define info where "info = (case col of None \<Rightarrow> [] | Some d \<Rightarrow> d)"
  show ?thesis
  proof (cases "truthy (dict_get info (ustr ''id''))")
    case True
    with assms c sel r1 have "attach provider cfg svc (set_ids t info) w1 = (Inr h, t', w')"
      by (simp add: ensure_daytona_def info_def)
    then show ?thesis by (rule attach_success)
  next
    case False
    with assms c sel r1 show ?thesis
      by (cases "daytona_create svc (uuid4 svc) (project_id t)")
         (auto simp: ensure_daytona_def info_def Let_def)
  qed
qed

lemma ensure_sandbox_success:
  assumes "ensure_sandbox provider cfg svc t w = (Inr h, t', w')"
  shows "t_sandbox t' = Some h"
proof (cases "t_sandbox t")
  case (Some h0)
  with assms show ?thesis by (simp add: ensure_sandbox_def)
next
  case None
  show ?thesis
  proof (cases "provider = ustr ''local_process'' \<or> provider = ustr ''local_docker''")
    case True
    with assms None have
      "ensure_local provider cfg svc (has_db t \<and> client_available svc) t w = (Inr h, t', w')"
      by (simp add: ensure_sandbox_def)
    then show ?thesis by (rule ensure_local_success)
  next
    case False
    with assms None have
      "ensure_daytona provider cfg svc (has_db t \<and> client_available svc) t w = (Inr h, t', w')"
      by (simp add: ensure_sandbox_def)
    then show ?thesis by (rule ensure_daytona_success)
  qed
qed

text \<open>
  C6. When a call of \<open>_ensure_sandbox\<close> has returned a handle, a further call on the same
  tool instance returns that very handle (hence the same sandbox identifier), whatever the
  services would answer, and leaves the tool, the file system, the metadata store and the
  log of calls as they are: nothing is provisioned again.
\<close>

theorem ensure_sandbox_second_call_cached:
  assumes "ensure_sandbox provider cfg svc t w = (Inr h, t', w')"
  shows "ensure_sandbox provider cfg svc2 t' w2 = (Inr h, t', w2)"
  using ensure_sandbox_success [OF assms] by (simp add: ensure_sandbox_def)

theorem ensure_sandbox_second_call_cached_witness:
  "ensure_sandbox (ustr ''local_process'') demo_cfg_local demo_services demo_tool demo_world =
     (Inr (LocalHandle \<lparr>sb_id = JStr (ustr ''sb-1''), workspace_root = ustr ''/workspace'',
                         state = ustr ''RUNNING''\<rparr>),
      fst (snd (ensure_sandbox (ustr ''local_process'') demo_cfg_local demo_services demo_tool
                  demo_world)),
      snd (snd (ensure_sandbox (ustr ''local_process'') demo_cfg_local demo_services demo_tool
                  demo_world)))
   \<and> ensure_sandbox (ustr ''local_process'') demo_cfg_local demo_services
        (fst (snd (ensure_sandbox (ustr ''local_process'') demo_cfg_local demo_services demo_tool
                     demo_world)))
        (snd (snd (ensure_sandbox (ustr ''local_process'') demo_cfg_local demo_services demo_tool
                     demo_world))) =
     (Inr (LocalHandle \<lparr>sb_id = JStr (ustr ''sb-1''), workspace_root = ustr ''/workspace'',
                         state = ustr ''RUNNING''\<rparr>),
      fst (snd (ensure_sandbox (ustr ''local_process'') demo_cfg_local demo_services demo_tool
                  demo_world)),
      snd (snd (ensure_sandbox (ustr ''local_process'') demo_cfg_local demo_services demo_tool
                  demo_world)))"
proof -
  have a: "fst (ensure_sandbox (ustr ''local_process'') demo_cfg_local demo_services demo_tool
                  demo_world) =
           Inr (LocalHandle \<lparr>sb_id = JStr (ustr ''sb-1''), workspace_root = ustr ''/workspace'',
                         state = ustr ''RUNNING''\<rparr>)"
    by code_simp
  have h: "ensure_sandbox (ustr ''local_process'') demo_cfg_local demo_services demo_tool demo_world =
     (Inr (LocalHandle \<lparr>sb_id = JStr (ustr ''sb-1''), workspace_root = ustr ''/workspace'',
                         state = ustr ''RUNNING''\<rparr>),
      fst (snd (ensure_sandbox (ustr ''local_process'') demo_cfg_local demo_services demo_tool
                  demo_world)),
      snd (snd (ensure_sandbox (ustr ''local_process'') demo_cfg_local demo_services demo_tool
                  demo_world)))"
    using a by (metis prod.collapse)
  show ?thesis
    using ensure_sandbox_second_call_cached [OF h] h by blast
qed

lemma reconcile_keeps_recorded_id:
  "truthy (dict_get d (ustr ''id'')) \<Longrightarrow>
     dict_get (fst (reconcile provider pid d)) (ustr ''id'') = dict_get d (ustr ''id'')"
  by (simp add: reconcile_def Let_def dict_get_def update_conv' ustr_def)

text \<open>
  C3. The stored record of project \<open>p1\<close> names the sandbox \<open>sb-1\<close> and the provider
  \<open>daytona\<close> under which it was created. With \<open>local_process\<close> active, the reconciliation
  keeps the identifier but replaces the provider that is present, and \<open>_ensure_sandbox\<close>
  writes the changed record to the store.
\<close>

theorem reconcile_replaces_recorded_provider:
  "reconcile (ustr ''local_process'') (ustr ''p1'') demo_record =
     ([(ustr ''id'', JStr (ustr ''sb-1'')), (ustr ''provider'', JStr (ustr ''local_process''))], True)
   \<and> projects (snd (snd (ensure_sandbox (ustr ''local_process'') demo_cfg_local demo_services
                            demo_tool demo_world))) =
     [(ustr ''p1'', Some [(ustr ''id'', JStr (ustr ''sb-1'')),
                          (ustr ''provider'', JStr (ustr ''local_process''))])]"
  by code_simp

subsection \<open>Path safety and path normalisation\<close>

text \<open>
  C1. With the workspace at \<open>/workspace\<close>, the path \<open>../workspace2/x\<close> resolves to
  \<open>/workspace2/x\<close>, which is not inside the project directory \<open>/workspace\<close>; the
  comparison of the two strings by \<open>startswith\<close> accepts it all the same. The same happens
  for the remote layout with \<open>../p1x/y\<close> against \<open>/workspace/p1\<close>.
\<close>

theorem is_path_safe_accepts_sibling_directory:
  "is_path_safe [] demo_cfg_local (ustr ''../workspace2/x'') (ustr ''p1'') = True
   \<and> Path_resolve [] (Path_of (resolve_absolute_path demo_cfg_local (ustr ''../workspace2/x'')
                                  (ustr ''p1''))) =
       Some \<lparr>absolute = True, comps = [ustr ''workspace2'', ustr ''x''], two_slashes = False\<rparr>
   \<and> Path_resolve [] (Path_of (get_project_directory_path demo_cfg_local (ustr ''p1''))) =
       Some \<lparr>absolute = True, comps = [ustr ''workspace''], two_slashes = False\<rparr>
   \<and> lies_within \<lparr>absolute = True, comps = [ustr ''workspace2'', ustr ''x''], two_slashes = False\<rparr>
        \<lparr>absolute = True, comps = [ustr ''workspace''], two_slashes = False\<rparr> = False
   \<and> is_path_safe [] demo_cfg_daytona (ustr ''../p1x/y'') (ustr ''p1'') = True"
  by code_simp

lemma is_path_safe_rejects_etc_passwd:
  "is_path_safe [] demo_cfg_local (ustr ''../../etc/passwd'') (ustr ''p1'') = False
   \<and> is_path_safe [] demo_cfg_daytona (ustr ''../../etc/passwd'') (ustr ''p1'') = False"
  by code_simp

text \<open>
  C5. Of three equal segments in a row two are left, so the result still holds a segment
  followed by an identical one; and \<open>data/data/file.txt\<close> comes back from
  \<open>_fix_path_duplications\<close> with a leading slash it did not have.
\<close>

theorem fix_path_duplications_leaves_duplicate:
  "fix_path_duplications (ustr ''a/a/a/b'') = ustr ''/a/a/b''
   \<and> normalize_path id demo_cfg_local (ustr ''a/a/a/b'') None = ustr ''/a/a/b''
   \<and> normalize_path id demo_cfg_local (ustr ''a/a/a/b'') (Some (ustr ''p1'')) = ustr ''a/a/b''
   \<and> fix_path_duplications (ustr ''data/data/file.txt'') = ustr ''/data/file.txt''
   \<and> normalize_path id demo_cfg_local (ustr ''data/data/file.txt'') None = ustr ''/data/file.txt''"
  by code_simp

lemma normalize_path_example_with_project:
  "normalize_path id demo_cfg_local (ustr ''data/data/file.txt'') (Some (ustr ''p1'')) =
     ustr ''data/file.txt''"
  by code_simp

subsection \<open>The file-system adapter\<close>




lemma refused_files [simp]: "refused (os\<lparr>files := fs\<rparr>) sc p = refused os sc p"
  by (simp add: refused_def)



lemma make_dirs_Nil [simp]: "make_dirs fs [] = fs"
  by (simp add: make_dirs_def)







lemma ancestors_Nil [simp]: "ancestors r [] = []"
  by (simp add: ancestors_def)


















text \<open>An upload changes nothing but the table of files.\<close>

lemma os_mkdir_frame:
  "os_mkdir os p = Inr os1 \<Longrightarrow>
     cwd os1 = cwd os \<and> dir_st_size os1 = dir_st_size os \<and> fault os1 = fault os"
  by (auto simp: os_mkdir_def split: option.splits sum.splits)

lemma unless_is_dir_frame: "unless_is_dir os p e = Inr os1 \<Longrightarrow> os1 = os"
  by (auto simp: unless_is_dir_def split: sum.splits bool.splits if_splits)

lemma mkdir_exist_ok_frame:
  "mkdir_exist_ok os p = Inr os1 \<Longrightarrow>
     cwd os1 = cwd os \<and> dir_st_size os1 = dir_st_size os \<and> fault os1 = fault os"
proof (cases "os_mkdir os p")
  case (Inr a)
  assume "mkdir_exist_ok os p = Inr os1"
  with Inr have "os1 = a" by (simp add: mkdir_exist_ok_def)
  with os_mkdir_frame [OF Inr] show ?thesis by simp
next
  case (Inl e)
  assume "mkdir_exist_ok os p = Inr os1"
  with Inl have "unless_is_dir os p e = Inr os1"
    by (cases e) (simp_all add: mkdir_exist_ok_def)
  from unless_is_dir_frame [OF this] show ?thesis by simp
qed

lemma mkdir_parents_frame:
  "mkdir_parents os p = Inr os1 \<Longrightarrow>
     cwd os1 = cwd os \<and> dir_st_size os1 = dir_st_size os \<and> fault os1 = fault os"
proof (induction os p arbitrary: os1 rule: mkdir_parents.induct)
  case (1 os p)
  show ?case
  proof (cases "os_mkdir os p")
    case (Inr a)
    with "1.prems" have "os1 = a" by (simp add: mkdir_parents.simps [of os p])
    with os_mkdir_frame [OF Inr] show ?thesis by simp
  next
    case (Inl e)
    show ?thesis
    proof (cases "e = ENOENT")
      case True
      with Inl "1.prems" have ne: "comps p \<noteq> []"
        by (auto simp: mkdir_parents.simps [of os p] split: if_splits)
      with Inl True "1.prems" obtain os0 where
        m: "mkdir_parents os (Path_parent p) = Inr os0" and e: "mkdir_exist_ok os0 p = Inr os1"
        by (auto simp: mkdir_parents.simps [of os p] split: sum.splits)
      from "1.IH" [OF Inl True ne m] mkdir_exist_ok_frame [OF e] show ?thesis by simp
    next
      case False
      with Inl "1.prems" have "unless_is_dir os p e = Inr os1"
        by (cases e) (simp_all add: mkdir_parents.simps [of os p])
      from unless_is_dir_frame [OF this] show ?thesis by simp
    qed
  qed
qed

lemma write_bytes_frame:
  "write_bytes os p data = Inr os1 \<Longrightarrow>
     cwd os1 = cwd os \<and> dir_st_size os1 = dir_st_size os \<and> fault os1 = fault os"
  by (auto simp: write_bytes_def split: option.splits sum.splits node.splits)

lemma upload_file_frame:
  assumes "upload_file os root data path = Inr os1"
  shows "os1 = os\<lparr>files := files os1\<rparr>"
proof -
  from assms obtain os0 where m: "mkdir_parents os (Path_parent (LocalFS_abs root path)) = Inr os0"
    and w: "write_bytes os0 (LocalFS_abs root path) data = Inr os1"
    by (auto simp: upload_file_def Let_def split: sum.splits)
  from mkdir_parents_frame [OF m] write_bytes_frame [OF w] show ?thesis by simp
qed

text \<open>
  Examples beyond the amended statement. A target that is a device takes the bytes and
  keeps none, through a relative path as well; a regular file in the place of a
  directory on the way makes the upload raise.
\<close>

lemma upload_file_to_device:
  "upload_file demo_os demo_root (ustr ''abc'') (ustr ''/dev/null'') = Inr demo_os
   \<and> download_file demo_os demo_root (ustr ''/dev/null'') = Inr []
   \<and> \<not> absolute (Path_of (ustr ''../dev/null''))
   \<and> upload_file demo_os demo_root (ustr ''abc'') (ustr ''../dev/null'') = Inr demo_os
   \<and> download_file demo_os demo_root (ustr ''../dev/null'') = Inr []"
proof -
  have a: "map_sum id files (upload_file demo_os demo_root (ustr ''abc'') (ustr ''/dev/null'')) =
             Inr (files demo_os)"
    by code_simp
  have b: "map_sum id files (upload_file demo_os demo_root (ustr ''abc'') (ustr ''../dev/null'')) =
             Inr (files demo_os)"
    by code_simp
  have c: "download_file demo_os demo_root (ustr ''/dev/null'') = Inr []
           \<and> \<not> absolute (Path_of (ustr ''../dev/null''))
           \<and> download_file demo_os demo_root (ustr ''../dev/null'') = Inr []"
    by code_simp
  from a obtain os1 where
    "upload_file demo_os demo_root (ustr ''abc'') (ustr ''/dev/null'') = Inr os1"
    "files os1 = files demo_os"
    by (cases "upload_file demo_os demo_root (ustr ''abc'') (ustr ''/dev/null'')") auto
  with upload_file_frame [OF this(1)]
  have a': "upload_file demo_os demo_root (ustr ''abc'') (ustr ''/dev/null'') = Inr demo_os"
    by simp
  from b obtain os2 where
    "upload_file demo_os demo_root (ustr ''abc'') (ustr ''../dev/null'') = Inr os2"
    "files os2 = files demo_os"
    by (cases "upload_file demo_os demo_root (ustr ''abc'') (ustr ''../dev/null'')") auto
  with upload_file_frame [OF this(1)]
  have b': "upload_file demo_os demo_root (ustr ''abc'') (ustr ''../dev/null'') = Inr demo_os"
    by simp
  from a' b' c show ?thesis by simp
qed

lemma upload_file_below_regular_file:
  "upload_file demo_os demo_root (ustr ''abc'') (ustr ''notes.txt/f.txt'') = Inl EEXIST
   \<and> upload_file demo_os demo_root (ustr ''abc'') (ustr ''notes.txt/sub/f.txt'') = Inl ENOTDIR"
proof -
  have "map_sum id files (upload_file demo_os demo_root (ustr ''abc'') (ustr ''notes.txt/f.txt'')) =
          Inl EEXIST"
    by code_simp
  then have a: "upload_file demo_os demo_root (ustr ''abc'') (ustr ''notes.txt/f.txt'') = Inl EEXIST"
    by (cases "upload_file demo_os demo_root (ustr ''abc'') (ustr ''notes.txt/f.txt'')") simp_all
  have "map_sum id files
          (upload_file demo_os demo_root (ustr ''abc'') (ustr ''notes.txt/sub/f.txt'')) =
          Inl ENOTDIR"
    by code_simp
  then have "upload_file demo_os demo_root (ustr ''abc'') (ustr ''notes.txt/sub/f.txt'') =
               Inl ENOTDIR"
    by (cases "upload_file demo_os demo_root (ustr ''abc'') (ustr ''notes.txt/sub/f.txt'')")
       simp_all
  with a show ?thesis by simp
qed

subsection \<open>Listing a directory\<close>















text \<open>
  A base written with two leading slashes keeps them in the paths of its entries, so
  that stripping the root prefix leaves a leading slash in the name.
\<close>

lemma list_files_base_with_two_slashes:
  "list_files demo_os demo_root (ustr ''//workspace/docs'') =
     Inr [\<lparr>name = ustr ''/docs/a.txt'', is_dir = False, size = 2\<rparr>]"
  by code_simp

subsection \<open>Idempotence of \<open>normalize_path\<close>\<close>

lemma split_on_not_Nil: "split_on c s \<noteq> []"
  by (induction s) (auto split: list.splits)

lemma split_on_elem_subset: "x \<in> set (split_on c s) \<Longrightarrow> set x \<subseteq> set s"
proof (induction s arbitrary: x)
  case Nil
  then show ?case by simp
next
  case (Cons a s)
  then show ?case by (fastforce split: if_splits list.splits)
qed

lemma split_on_elem_no_sep: "x \<in> set (split_on c s) \<Longrightarrow> c \<notin> set x"
proof (induction s arbitrary: x)
  case Nil
  then show ?case by simp
next
  case (Cons a s)
  then show ?case by (fastforce split: if_splits list.splits)
qed

lemma split_on_no_sep: "c \<notin> set a \<Longrightarrow> split_on c a = [a]"
  by (induction a) auto

lemma split_on_append_sep: "c \<notin> set a \<Longrightarrow> split_on c (a @ c # b) = a # split_on c b"
  by (induction a) auto

lemma split_on_snoc_sep: "split_on c (s @ [c]) = split_on c s @ [[]]"
  by (induction s) (auto simp: split_on_not_Nil split: list.splits)

lemma parts_lstrip:
  "filter (\<lambda>p. p \<noteq> []) (split_on c (lstrip c s)) = filter (\<lambda>p. p \<noteq> []) (split_on c s)"
  by (induction s) (auto simp: lstrip_def)

lemma rstrip_snoc: "rstrip c (s @ [x]) = (if x = c then rstrip c s else s @ [x])"
  by (simp add: rstrip_def)

lemma parts_rstrip:
  "filter (\<lambda>p. p \<noteq> []) (split_on c (rstrip c s)) = filter (\<lambda>p. p \<noteq> []) (split_on c s)"
proof (induction s rule: rev_induct)
  case Nil
  then show ?case by (simp add: rstrip_def)
next
  case (snoc x xs)
  then show ?case by (simp add: rstrip_snoc split_on_snoc_sep)
qed

lemma path_parts_alt:
  "path_parts s = filter (\<lambda>p. p \<noteq> []) (split_on slash (replace_char backslash slash s))"
  by (simp add: path_parts_def strip_def parts_rstrip parts_lstrip)

lemma replace_char_id: "old \<notin> set s \<Longrightarrow> replace_char old new s = s"
  by (induction s) (auto simp: replace_char_def)

lemma path_parts_slash_Cons: "path_parts (slash # s) = path_parts s"
  by (simp add: path_parts_alt replace_char_def)

lemma path_parts_elem:
  assumes "x \<in> set (path_parts s)"
  shows "x \<noteq> [] \<and> slash \<notin> set x \<and> backslash \<notin> set x"
proof -
  from assms have x: "x \<in> set (split_on slash (replace_char backslash slash s))" and ne: "x \<noteq> []"
    by (auto simp: path_parts_alt)
  have "backslash \<notin> set (replace_char backslash slash s)"
    by (auto simp: replace_char_def)
  with split_on_elem_subset [OF x] have "backslash \<notin> set x" by blast
  with split_on_elem_no_sep [OF x] ne show ?thesis by simp
qed

lemma set_join: "set (join sep ps) \<subseteq> set sep \<union> \<Union> (set ` set ps)"
  by (induction sep ps rule: join.induct) auto

lemma parts_of_join:
  "(\<And>x. x \<in> set ps \<Longrightarrow> x \<noteq> [] \<and> slash \<notin> set x) \<Longrightarrow>
     filter (\<lambda>p. p \<noteq> []) (split_on slash (join [slash] ps)) = ps"
proof (induction "[slash]" ps rule: join.induct)
  case 1
  then show ?case by simp
next
  case (2 p)
  then show ?case by (simp add: split_on_no_sep)
next
  case (3 p q ps)
  have "split_on slash (p @ slash # join [slash] (q # ps)) = p # split_on slash (join [slash] (q # ps))"
    using 3(2) by (intro split_on_append_sep) simp
  with 3 show ?case by simp
qed

lemma path_parts_join:
  assumes "\<And>x. x \<in> set ps \<Longrightarrow> x \<noteq> [] \<and> slash \<notin> set x \<and> backslash \<notin> set x"
  shows "path_parts (join [slash] ps) = ps"
proof -
  have "backslash \<notin> set (join [slash] ps)"
    using set_join [of "[slash]" ps] assms by auto
  then have "replace_char backslash slash (join [slash] ps) = join [slash] ps"
    by (rule replace_char_id)
  with parts_of_join [of ps] assms show ?thesis by (simp add: path_parts_alt)
qed

lemma path_parts_Cons_length: "length (path_parts s) \<le> length (path_parts (x # s))"
  by (cases "split_on slash (replace_char backslash slash s)")
     (auto simp: path_parts_alt replace_char_def split_on_not_Nil)

lemma path_parts_suffix_length:
  "suffix q s \<Longrightarrow> length (path_parts q) \<le> length (path_parts s)"
proof (induction s)
  case Nil
  then show ?case by simp
next
  case (Cons a s)
  from Cons.prems have "q = a # s \<or> suffix q s" by (simp add: suffix_Cons)
  then show ?case
  proof
    assume "q = a # s" then show ?thesis by simp
  next
    assume "suffix q s"
    from Cons.IH [OF this] path_parts_Cons_length [of s a] show ?thesis by simp
  qed
qed

lemma dedup_loop_dedup: "dedup_loop ps i acc = acc @ dedup (drop i ps)"
proof (induction ps i acc rule: dedup_loop.induct)
  case (1 ps i acc)
  show ?case
  proof (cases "i < length ps")
    case False
    then show ?thesis by (simp add: dedup_loop.simps [of ps i acc])
  next
    case True
    note lt = this
    show ?thesis
    proof (cases "i + 1 < length ps \<and> ps ! (i + 1) = ps ! i")
      case True
      then have l1: "Suc i < length ps" by simp
      have "drop i ps = ps ! i # drop (Suc i) ps"
        using lt by (simp add: Cons_nth_drop_Suc)
      also have "drop (Suc i) ps = ps ! Suc i # drop (Suc (Suc i)) ps"
        using l1 by (simp add: Cons_nth_drop_Suc)
      finally have "drop i ps = ps ! i # ps ! (i + 1) # drop (i + 2) ps" by simp
      with True have d: "dedup (drop i ps) = ps ! i # dedup (drop (i + 2) ps)" by simp
      from 1(1) [OF lt True] have
        "dedup_loop ps (i + 2) (acc @ [ps ! i]) = (acc @ [ps ! i]) @ dedup (drop (i + 2) ps)" .
      with lt True d show ?thesis by (simp add: dedup_loop.simps [of ps i acc])
    next
      case False
      have d0: "drop i ps = ps ! i # drop (i + 1) ps"
        using lt by (simp add: Cons_nth_drop_Suc)
      have "dedup (ps ! i # drop (i + 1) ps) = ps ! i # dedup (drop (i + 1) ps)"
      proof (cases "drop (i + 1) ps")
        case Nil
        then show ?thesis by simp
      next
        case (Cons y ys)
        then have l: "i + 1 < length ps" by (metis drop_eq_Nil2 list.distinct(1) not_le)
        with Cons have "y = ps ! (i + 1)"
          by (metis Cons_nth_drop_Suc list.inject)
        with False l Cons show ?thesis by auto
      qed
      with d0 have d: "dedup (drop i ps) = ps ! i # dedup (drop (i + 1) ps)" by simp
      from 1(2) [OF lt False] have
        "dedup_loop ps (i + 1) (acc @ [ps ! i]) = (acc @ [ps ! i]) @ dedup (drop (i + 1) ps)" .
      with lt False d show ?thesis by (auto simp: dedup_loop.simps [of ps i acc])
    qed
  qed
qed

lemma dedup_distinct_adj: "distinct_adj xs \<Longrightarrow> dedup xs = xs"
  by (induction xs rule: dedup.induct) auto

lemma set_dedup: "set (dedup xs) \<subseteq> set xs"
  by (induction xs rule: dedup.induct) auto

lemma dedup_Nil_iff: "dedup xs = [] \<longleftrightarrow> xs = []"
  by (induction xs rule: dedup.induct) auto

lemma fix_path_duplications_alt:
  "fix_path_duplications s =
     (if length (path_parts s) < 2 then s else slash # join [slash] (dedup (path_parts s)))"
proof -
  have "length (path_parts s) \<ge> 2 \<Longrightarrow> dedup (path_parts s) \<noteq> []"
    using dedup_Nil_iff [of "path_parts s"] by auto
  then show ?thesis
    by (auto simp: fix_path_duplications_def Let_def dedup_loop_dedup)
qed

lemma unicode_sub_id: "backslash \<notin> set s \<Longrightarrow> unicode_sub s = s"
  by (induction s) auto

lemma unquote_id: "percent \<notin> set s \<Longrightarrow> unquote pct s = s"
  by (simp add: unquote_def)

lemma suffix_lstrip: "suffix (lstrip c s) s"
  by (simp add: lstrip_def suffix_dropWhile)

lemma ws_normalize_suffix_lstrip:
  "suffix (WorkspaceConfig_normalize_path cfg s pid) (lstrip slash s)"
proof -
  define p1 where "p1 = lstrip slash s"
  define wp where "wp = lstrip slash (WORKSPACE_ROOT cfg)"
  define p2 where "p2 = (if startswith p1 wp then lstrip slash (drop (length wp) p1) else p1)"
  define p3 where "p3 = (if startswith p2 (pid @ [slash]) then drop (length (pid @ [slash])) p2 else p2)"
  have r: "WorkspaceConfig_normalize_path cfg s pid = p3"
    by (simp add: WorkspaceConfig_normalize_path_def Let_def p1_def wp_def p2_def p3_def)
  have "suffix (lstrip slash (drop (length wp) p1)) p1"
    using suffix_lstrip [of slash "drop (length wp) p1"] suffix_drop [of "length wp" p1]
    by (rule suffix_order.trans)
  then have a: "suffix p2 p1" by (simp add: p2_def)
  have b: "suffix p3 p2" by (simp add: p3_def suffix_drop)
  from b a have "suffix p3 p1" by (rule suffix_order.trans)
  with r show ?thesis by (simp add: p1_def)
qed

lemma ws_normalize_suffix: "suffix (WorkspaceConfig_normalize_path cfg s pid) s"
  using ws_normalize_suffix_lstrip [of cfg s pid] suffix_lstrip [of slash s]
  by (rule suffix_order.trans)

lemma ws_normalize_length:
  "length (WorkspaceConfig_normalize_path cfg s pid) \<le> length (lstrip slash s)"
  using ws_normalize_suffix_lstrip [of cfg s pid] by (rule suffix_length_le)

lemma ws_stable_no_leading_slash:
  assumes "WorkspaceConfig_normalize_path cfg q pid = q"
  shows "q = [] \<or> hd q \<noteq> slash"
proof (rule ccontr)
  assume "\<not> (q = [] \<or> hd q \<noteq> slash)"
  then obtain r where q: "q = slash # r" by (cases q) auto
  have "length (lstrip slash q) \<le> length r"
    using suffix_lstrip [of slash r] by (auto simp: q lstrip_def dest: suffix_length_le)
  with ws_normalize_length [of cfg q pid] assms q show False by simp
qed

lemma ws_normalize_slash_Cons:
  "WorkspaceConfig_normalize_path cfg (slash # s) pid = WorkspaceConfig_normalize_path cfg s pid"
  by (simp add: WorkspaceConfig_normalize_path_def lstrip_def)

lemma suffix_of_join:
  assumes "\<And>x. x \<in> set ps \<Longrightarrow> x \<noteq> [] \<and> slash \<notin> set x \<and> backslash \<notin> set x"
    and "suffix q (join [slash] ps)" and "q \<noteq> []" and "hd q \<noteq> slash"
  shows "\<exists>qs. q = join [slash] qs
              \<and> (\<forall>x \<in> set qs. x \<noteq> [] \<and> slash \<notin> set x \<and> backslash \<notin> set x)"
  using assms
proof (induction "[slash]" ps rule: join.induct)
  case 1
  then show ?case by simp
next
  case (2 p)
  from 2(2) have "set q \<subseteq> set p" by (auto simp: suffix_def)
  with 2(1) [of p] 2(3) have "q \<noteq> [] \<and> slash \<notin> set q \<and> backslash \<notin> set q" by auto
  then have "q = join [slash] [q] \<and> (\<forall>x \<in> set [q]. x \<noteq> [] \<and> slash \<notin> set x \<and> backslash \<notin> set x)"
    by simp
  then show ?case by blast
next
  case (3 p r ps)
  let ?J = "join [slash] (r # ps)"
  from 3(3) have "suffix q (p @ (slash # ?J))" by simp
  then consider (tail) "suffix q (slash # ?J)" | (head) p' where "suffix p' p" "q = p' @ slash # ?J"
    by (auto simp: suffix_append)
  then show ?case
  proof cases
    case tail
    with 3(5) 3(4) have "suffix q ?J" by (auto simp: suffix_Cons)
    moreover have "\<And>x. x \<in> set (r # ps) \<Longrightarrow> x \<noteq> [] \<and> slash \<notin> set x \<and> backslash \<notin> set x"
      using 3(2) by simp
    ultimately show ?thesis using 3(1) 3(4) 3(5) by blast
  next
    case head
    with 3(5) have ne: "p' \<noteq> []" by (cases p') auto
    from head(1) have "set p' \<subseteq> set p" by (auto simp: suffix_def)
    with 3(2) [of p] ne have "p' \<noteq> [] \<and> slash \<notin> set p' \<and> backslash \<notin> set p'" by auto
    with 3(2) have "\<forall>x \<in> set (p' # r # ps). x \<noteq> [] \<and> slash \<notin> set x \<and> backslash \<notin> set x"
      by simp
    moreover from head(2) have "q = join [slash] (p' # r # ps)" by simp
    ultimately show ?thesis by blast
  qed
qed

lemma fix_path_duplications_distinct_adj:
  assumes "distinct_adj (path_parts q)"
  shows "fix_path_duplications q =
           (if length (path_parts q) < 2 then q else slash # join [slash] (path_parts q))"
  using assms by (simp add: fix_path_duplications_alt dedup_distinct_adj)

lemma fix_path_duplications_shape:
  assumes "2 \<le> length (path_parts d)"
  shows "\<exists>ps. fix_path_duplications d = slash # join [slash] ps
              \<and> (\<forall>x \<in> set ps. x \<noteq> [] \<and> slash \<notin> set x \<and> backslash \<notin> set x)"
proof -
  have "\<forall>x \<in> set (dedup (path_parts d)). x \<noteq> [] \<and> slash \<notin> set x \<and> backslash \<notin> set x"
    using set_dedup [of "path_parts d"] path_parts_elem [of _ d] by blast
  moreover have "fix_path_duplications d = slash # join [slash] (dedup (path_parts d))"
    using assms by (simp add: fix_path_duplications_alt)
  ultimately show ?thesis by blast
qed

lemma fix_path_duplications_fixed:
  assumes "distinct_adj (path_parts (fix_path_duplications d))"
  shows "fix_path_duplications (fix_path_duplications d) = fix_path_duplications d"
proof (cases "length (path_parts d) < 2")
  case True
  then have "fix_path_duplications d = d" by (simp add: fix_path_duplications_alt)
  then show ?thesis by simp
next
  case False
  then obtain ps where f: "fix_path_duplications d = slash # join [slash] ps"
    and ok: "\<forall>x \<in> set ps. x \<noteq> [] \<and> slash \<notin> set x \<and> backslash \<notin> set x"
    using fix_path_duplications_shape [of d] by auto
  have "path_parts (fix_path_duplications d) = ps"
    using ok by (simp add: f path_parts_slash_Cons path_parts_join)
  with fix_path_duplications_distinct_adj [OF assms] f show ?thesis by auto
qed

lemma workspace_then_fix_fixed:
  assumes q: "q = WorkspaceConfig_normalize_path cfg (fix_path_duplications d) pid"
    and st: "WorkspaceConfig_normalize_path cfg q pid = q"
    and da: "distinct_adj (path_parts q)"
  shows "WorkspaceConfig_normalize_path cfg (fix_path_duplications q) pid = q"
proof (cases "length (path_parts q) < 2")
  case True
  with fix_path_duplications_distinct_adj [OF da] st show ?thesis by simp
next
  case False
  have suf: "suffix q (fix_path_duplications d)"
    unfolding q by (rule ws_normalize_suffix)
  from False path_parts_suffix_length [OF suf] have "2 \<le> length (path_parts (fix_path_duplications d))"
    by simp
  then have "2 \<le> length (path_parts d)"
    by (cases "length (path_parts d) < 2") (simp_all add: fix_path_duplications_alt)
  then obtain ps where f: "fix_path_duplications d = slash # join [slash] ps"
    and ok: "\<forall>x \<in> set ps. x \<noteq> [] \<and> slash \<notin> set x \<and> backslash \<notin> set x"
    using fix_path_duplications_shape [of d] by auto
  from False have ne: "q \<noteq> []" by (auto simp: path_parts_alt replace_char_def)
  with ws_stable_no_leading_slash [OF st] have hd: "hd q \<noteq> slash" by simp
  from suf f ne hd have "suffix q (join [slash] ps)"
    by (cases q) (auto simp: suffix_Cons)
  with suffix_of_join [of ps q] ok ne hd obtain qs where qs: "q = join [slash] qs"
    and okq: "\<forall>x \<in> set qs. x \<noteq> [] \<and> slash \<notin> set x \<and> backslash \<notin> set x"
    by blast
  from okq have "path_parts q = qs" by (simp add: qs path_parts_join)
  with qs have "join [slash] (path_parts q) = q" by simp
  with fix_path_duplications_distinct_adj [OF da] False st show ?thesis
    by (simp add: ws_normalize_slash_Cons)
qed

text \<open>
  C2 (as amended). Let \<open>q\<close> be the result of normalising any path \<open>p\<close>. If \<open>q\<close> holds
  no \<open>%\<close> and no backslash (nothing is left to decode), no segment of \<open>q\<close> is followed by
  an identical one, and, when a non-empty project identifier is given, the workspace
  normalisation leaves \<open>q\<close> unchanged (it does not start with a slash, with the workspace
  prefix or with the project prefix), then normalising \<open>q\<close> again gives \<open>q\<close>.
\<close>

theorem normalize_path_idempotent_when_settled:
  assumes pc: "percent \<notin> set (normalize_path pct cfg p pid)"
    and bs: "backslash \<notin> set (normalize_path pct cfg p pid)"
    and da: "distinct_adj (path_parts (normalize_path pct cfg p pid))"
    and ws: "workspace_stable cfg pid (normalize_path pct cfg p pid)"
  shows "normalize_path pct cfg (normalize_path pct cfg p pid) pid = normalize_path pct cfg p pid"
proof -
  define d where "d = unicode_sub (unquote pct p)"
  define q where "q = normalize_path pct cfg p pid"
  have dec: "unicode_sub (unquote pct q) = q"
    using pc bs by (simp add: q_def unquote_id unicode_sub_id)
  show ?thesis
  proof (cases "\<exists>i. pid = Some i \<and> i \<noteq> []")
    case False
    then have q1: "q = fix_path_duplications d"
      by (auto simp: q_def d_def normalize_path_def Let_def split: option.splits)
    from False have "normalize_path pct cfg q pid = fix_path_duplications q"
      using dec by (auto simp: normalize_path_def Let_def split: option.splits)
    also have "\<dots> = q"
      using da unfolding q_def [symmetric] q1 by (rule fix_path_duplications_fixed)
    finally show ?thesis by (simp add: q_def)
  next
    case True
    then obtain i where i: "pid = Some i" "i \<noteq> []" by blast
    then have q1: "q = WorkspaceConfig_normalize_path cfg (fix_path_duplications d) i"
      by (simp add: q_def d_def normalize_path_def Let_def)
    from ws i have st: "WorkspaceConfig_normalize_path cfg q i = q"
      by (simp add: workspace_stable_def q_def)
    from i have "normalize_path pct cfg q pid =
                   WorkspaceConfig_normalize_path cfg (fix_path_duplications q) i"
      using dec by (simp add: normalize_path_def Let_def)
    also have "\<dots> = q"
      using q1 st da unfolding q_def [symmetric] by (rule workspace_then_fix_fixed)
    finally show ?thesis by (simp add: q_def)
  qed
qed

theorem normalize_path_idempotent_when_settled_witness:
  "percent \<notin> set (normalize_path id demo_cfg_local (ustr ''/workspace/p1/data/data/file.txt'') (Some (ustr ''p1'')))
   \<and> backslash \<notin> set (normalize_path id demo_cfg_local (ustr ''/workspace/p1/data/data/file.txt'') (Some (ustr ''p1'')))
   \<and> distinct_adj (path_parts (normalize_path id demo_cfg_local (ustr ''/workspace/p1/data/data/file.txt'') (Some (ustr ''p1''))))
   \<and> workspace_stable demo_cfg_local (Some (ustr ''p1''))
        (normalize_path id demo_cfg_local (ustr ''/workspace/p1/data/data/file.txt'') (Some (ustr ''p1'')))
   \<and> normalize_path id demo_cfg_local (ustr ''/workspace/p1/data/data/file.txt'') (Some (ustr ''p1'')) =
        ustr ''data/file.txt''
   \<and> normalize_path id demo_cfg_local
        (normalize_path id demo_cfg_local (ustr ''/workspace/p1/data/data/file.txt'') (Some (ustr ''p1'')))
        (Some (ustr ''p1'')) = ustr ''data/file.txt''"
proof -
  have v: "normalize_path id demo_cfg_local (ustr ''/workspace/p1/data/data/file.txt'') (Some (ustr ''p1'')) =
        ustr ''data/file.txt''"
    by code_simp
  have a: "percent \<notin> set (normalize_path id demo_cfg_local (ustr ''/workspace/p1/data/data/file.txt'') (Some (ustr ''p1'')))"
    unfolding v by (simp add: ustr_def)
  have b: "backslash \<notin> set (normalize_path id demo_cfg_local (ustr ''/workspace/p1/data/data/file.txt'') (Some (ustr ''p1'')))"
    unfolding v by (simp add: ustr_def)
  have p: "path_parts (ustr ''data/file.txt'') = [ustr ''data'', ustr ''file.txt'']"
    by code_simp
  have c: "distinct_adj (path_parts (normalize_path id demo_cfg_local (ustr ''/workspace/p1/data/data/file.txt'') (Some (ustr ''p1''))))"
    unfolding v p by (simp add: ustr_def)
  have d: "workspace_stable demo_cfg_local (Some (ustr ''p1''))
        (normalize_path id demo_cfg_local (ustr ''/workspace/p1/data/data/file.txt'') (Some (ustr ''p1'')))"
    unfolding v by code_simp
  show ?thesis
    using normalize_path_idempotent_when_settled [OF a b c d] a b c d v by simp
qed

text \<open>
  C2 (as stated) fails. The text \<open>\u005cu0041\<close> (which holds no \<open>%\<close>, so that \<open>unquote\<close>
  returns it as it is) is normalised to \<open>\u0041\<close> and that, in turn, to \<open>A\<close>: decoding
  is applied afresh at every call. With project \<open>p1\<close>, \<open>p1/workspace/x\<close> gives
  \<open>workspace/x\<close> and then \<open>x\<close>: the prefixes are stripped afresh as well.
\<close>

theorem normalize_path_decodes_again:
  "normalize_path id demo_cfg_local
       (normalize_path id demo_cfg_local [backslash, 117, 48, 48, 53, 99, 117, 48, 48, 52, 49] None)
       None \<noteq>
     normalize_path id demo_cfg_local [backslash, 117, 48, 48, 53, 99, 117, 48, 48, 52, 49] None
   \<and> normalize_path id demo_cfg_local [backslash, 117, 48, 48, 53, 99, 117, 48, 48, 52, 49] None =
     [backslash, 117, 48, 48, 52, 49]
   \<and> normalize_path id demo_cfg_local
       (normalize_path id demo_cfg_local [backslash, 117, 48, 48, 53, 99, 117, 48, 48, 52, 49] None)
       None = [65]
   \<and> normalize_path id demo_cfg_local (ustr ''p1/workspace/x'') (Some (ustr ''p1'')) =
       ustr ''workspace/x''
   \<and> normalize_path id demo_cfg_local
       (normalize_path id demo_cfg_local (ustr ''p1/workspace/x'') (Some (ustr ''p1'')))
       (Some (ustr ''p1'')) = ustr ''x''"
  by code_simp

end
